theory Spec2Isabelle
  imports Main "HOL-Library.Word" "HOL-Library.Multiset"
begin

section \<open>Data model of the queue worker\<close>

text \<open>
  The worker of \<^verbatim>\<open>package worker\<close> consumes deliveries from the broker, decodes each
  body into a whitelist request and runs one handler per status. Everything the handlers do
  to the outside (acknowledge, publish, log, game-server command, e-mail, document update,
  cache refresh) is recorded as an event of a trace; the answers of the outside are read from
  oracles that may depend on the whole trace so far, so that every sequence of outcomes can
  occur. A Go panic is the left summand of the result and carries the world at that moment.

  Go's \<^verbatim>\<open>int\<close> is taken to be 64 bits wide (a 64-bit platform) and \<^verbatim>\<open>int32\<close> is a
  32-bit word; both wrap around and are read signed.
\<close>

type_synonym go_int = "64 word"
type_synonym int32 = "32 word"

text \<open>
  The values a header table of the AMQP client can hold: \<^verbatim>\<open>amqp.Table\<close> is
  \<^verbatim>\<open>map[string]interface{}\<close>. A table is an association list read with \<open>map_of\<close>.
\<close>

datatype amqp_value =
    VNil
  | VBool bool
  | VInt32 int32
  | VInt64 "64 word"
  | VString string
  | VArray "amqp_value list"
  | VTable "(string \<times> amqp_value) list"
  | VOther

type_synonym amqp_table = "(string \<times> amqp_value) list"

text \<open>\<^verbatim>\<open>amqp.Delivery\<close>: the body is \<open>None\<close> for a nil slice.\<close>

record Delivery =
  Headers :: amqp_table
  Body :: "string option"

text \<open>\<^verbatim>\<open>amqp.Publishing\<close>, with the fields the worker sets.\<close>

record Publishing =
  pub_Headers :: amqp_table
  DeliveryMode :: nat
  ContentType :: string
  Expiration :: string
  pub_Body :: "string option"

definition Persistent :: nat where
  "Persistent = 2"

type_synonym objectid = string

text \<open>
  Modelled from the spec: the declaration of \<^verbatim>\<open>types.WhitelistRequest\<close> and the status
  constants of package \<^verbatim>\<open>types\<close> are missing from the sources. The wire format of the
  spec gives the fields \<^verbatim>\<open>_id\<close>, \<^verbatim>\<open>username\<close>, \<^verbatim>\<open>email\<close>, \<^verbatim>\<open>status\<close> and the five
  status strings; the onserver statuses are None, Whitelisted and Banned.
\<close>

record WhitelistRequest =
  ID :: objectid
  Username :: string
  Email :: string
  Status :: string

definition StatusPending :: string where "StatusPending = ''Pending''"
definition StatusApproved :: string where "StatusApproved = ''Approved''"
definition StatusDenied :: string where "StatusDenied = ''Denied''"
definition StatusDeactivated :: string where "StatusDeactivated = ''Deactivated''"
definition StatusBanned :: string where "StatusBanned = ''Banned''"
definition OnserverNone :: string where "OnserverNone = ''None''"
definition OnserverBanned :: string where "OnserverBanned = ''Banned''"

datatype log_level = LInfo | LWarning | LError

text \<open>The \<^verbatim>\<open>$set\<close> documents the worker sends to the document store.\<close>

datatype change = SetAssignees "string list" | SetOnserverStatus string

text \<open>A decoded JSON text; a number keeps its literal.\<close>

datatype json =
    JNull
  | JBool bool
  | JNumber string
  | JString string
  | JArray "json list"
  | JObject "(string \<times> json) list"

text \<open>
  The trace. The last argument of an event of a fallible call says whether the call
  succeeded.
\<close>

datatype event =
    EAck
  | EPublish string string Publishing bool
  | ELog log_level string
  | ERcon string bool
  | EMail string string string string bool
  | EDbSet objectid change bool
  | ECacheAllRequests bool
  | ECacheRealTimeStats bool

text \<open>The persisted application document, with the two fields the worker writes.\<close>

record document =
  doc_assignees :: "string list option"
  doc_onserverStatus :: "string option"

record world =
  trace :: "event list"
  store :: "objectid \<rightharpoonup> document"

datatype panic = TypeAssertion | SliceBounds

type_synonym 'a outcome = "(panic \<times> world) + 'a"

text \<open>
  The configuration read through viper, the environment variable, and the collaborators
  that are not part of the worker (\<^verbatim>\<open>utils.EncodeAndEncrypt\<close>, the decoder of the
  identifier type, the game-server client, the mailer, the document store, the cache, the
  broker channel and the random source). An oracle returns \<open>True\<close> when the call returns an
  error. \<open>ops_spare\<close> holds the elements of the backing array of the \<open>ops\<close> slice beyond its
  length (its capacity is the length of both together). The decoder of the identifier is the
  method \<^verbatim>\<open>UnmarshalJSON\<close> of \<^verbatim>\<open>primitive.ObjectID\<close> in the database driver: it maps the JSON
  value it is handed to the identifier it stores, or to nothing when it returns an error.
  \<open>maxNestingDepth\<close> is the deepest nesting of arrays and objects that the JSON scanner of
  the toolchain reads: 10000 since Go 1.15, unbounded before.
\<close>

record env =
  ops :: "string list"
  ops_spare :: "string list"
  dispatchingStrategy :: string
  randomDispatchingThreshold :: int
  minRequiredReceiver :: int
  passphrase :: string
  approvedEmailTitle :: string
  deniedEmailTitle :: string
  confirmationEmailTitle :: string
  FRONTEND_DEPLOYED_URL :: string
  EncodeAndEncrypt :: "string \<Rightarrow> string \<Rightarrow> string option"
  rcon_err :: "event list \<Rightarrow> string \<Rightarrow> bool"
  mail_err :: "event list \<Rightarrow> string \<Rightarrow> string \<Rightarrow> string \<Rightarrow> string \<Rightarrow> bool"
  ObjectID_UnmarshalJSON :: "json \<Rightarrow> objectid option"
  maxNestingDepth :: "nat option"
  db_err :: "event list \<Rightarrow> objectid \<Rightarrow> change \<Rightarrow> bool"
  cache_all_err :: "event list \<Rightarrow> bool"
  cache_stats_err :: "event list \<Rightarrow> bool"
  publish_err :: "event list \<Rightarrow> Publishing \<Rightarrow> bool"
  rand_Intn :: "event list \<Rightarrow> nat \<Rightarrow> nat"

section \<open>Effects\<close>

definition emit :: "event \<Rightarrow> world \<Rightarrow> world" where
  "emit e w = w\<lparr>trace := trace w @ [e]\<rparr>"

definition logEvent :: "log_level \<Rightarrow> string \<Rightarrow> world \<Rightarrow> world" where
  "logEvent l msg w = emit (ELog l msg) w"

definition Ack :: "world \<Rightarrow> world" where
  "Ack w = emit EAck w"

definition Publish :: "env \<Rightarrow> world \<Rightarrow> string \<Rightarrow> string \<Rightarrow> Publishing \<Rightarrow> bool \<times> world" where
  "Publish en w exchange key msg =
     (let e = publish_err en (trace w) msg
      in (e, emit (EPublish exchange key msg (\<not> e)) w))"

text \<open>The events a step has added to the trace, and the world an outcome ends in.\<close>

definition new_events :: "world \<Rightarrow> world \<Rightarrow> event list" where
  "new_events w w' = drop (length (trace w)) (trace w')"

definition final :: "world outcome \<Rightarrow> world" where
  "final r = (case r of Inl (p, w) \<Rightarrow> w | Inr w \<Rightarrow> w)"

section \<open>Decimal conversion of package strconv\<close>

definition is_digit :: "char \<Rightarrow> bool" where
  "is_digit c = (48 \<le> (of_char c :: nat) \<and> (of_char c :: nat) \<le> 57)"

definition digit_val :: "char \<Rightarrow> nat" where
  "digit_val c = of_char c - 48"

definition digit_char :: "nat \<Rightarrow> char" where
  "digit_char n = char_of (48 + n)"

fun parse_digits :: "nat \<Rightarrow> string \<Rightarrow> nat option" where
  "parse_digits acc [] = Some acc"
| "parse_digits acc (c # cs) =
     (if is_digit c then parse_digits (acc * 10 + digit_val c) cs else None)"

text \<open>
  \<^verbatim>\<open>strconv.Atoi\<close>: an optional sign and decimal digits. A syntax error returns 0, a value
  out of range returns the nearest bound; the second component says whether an error is
  returned.
\<close>

definition Atoi :: "string \<Rightarrow> go_int \<times> bool" where
  "Atoi s =
     (let (neg, ds) =
            (case s of
               [] \<Rightarrow> (False, [])
             | c # r \<Rightarrow> if c = CHR ''-'' then (True, r)
                        else if c = CHR ''+'' then (False, r) else (False, s))
      in if ds = [] then (0, True)
         else case parse_digits 0 ds of
                None \<Rightarrow> (0, True)
              | Some n \<Rightarrow>
                  if neg then
                    (if 2 ^ 63 < n then (word_of_int (- (2 ^ 63)), True)
                     else (word_of_int (- int n), False))
                  else
                    (if 2 ^ 63 \<le> n then (word_of_int (2 ^ 63 - 1), True)
                     else (word_of_nat n, False)))"

function decimal :: "nat \<Rightarrow> string" where
  "decimal n = (if n < 10 then [digit_char n] else decimal (n div 10) @ [digit_char (n mod 10)])"
  by pat_completeness auto
termination
  by (relation "measure id") auto

declare decimal.simps [simp del]

text \<open>\<^verbatim>\<open>strconv.Itoa\<close>.\<close>

definition Itoa :: "go_int \<Rightarrow> string" where
  "Itoa i = (if sint i < 0 then CHR ''-'' # decimal (nat (- sint i)) else decimal (nat (sint i)))"

section \<open>Retry policy\<close>

text \<open>
  Lines 377 to 385 of \<^verbatim>\<open>retryMsgWithDelay\<close>: the expiration of the republished message.
  Each unchecked type assertion panics on a value of another type; the error of
  \<^verbatim>\<open>Atoi\<close> is discarded.
\<close>

definition retry_expiration :: "amqp_table \<Rightarrow> panic + go_int" where
  "retry_expiration hs =
     (case map_of hs ''x-death'' of
        None \<Rightarrow> Inr (15 * 60 * 1000)
      | Some (VArray val) \<Rightarrow>
          (case val of
             [] \<Rightarrow> Inr (15 * 60 * 1000)
           | v0 # _ \<Rightarrow>
               (case v0 of
                  VTable t \<Rightarrow>
                    (case map_of t ''original-expiration'' of
                       Some (VString expirationStr) \<Rightarrow> Inr (fst (Atoi expirationStr) * 2)
                     | _ \<Rightarrow> Inl TypeAssertion)
                | _ \<Rightarrow> Inl TypeAssertion))
      | Some _ \<Rightarrow> Inl TypeAssertion)"

text \<open>Lines 386 to 389: the retry count of the republished message.\<close>

definition retry_count :: "amqp_table \<Rightarrow> panic + int32" where
  "retry_count hs =
     (case map_of hs ''x-retry-count'' of
        None \<Rightarrow> Inr 1
      | Some (VInt32 val) \<Rightarrow> Inr (val + 1)
      | Some _ \<Rightarrow> Inl TypeAssertion)"

definition retryMsgWithDelay :: "env \<Rightarrow> world \<Rightarrow> Delivery \<Rightarrow> string \<Rightarrow> world outcome" where
  "retryMsgWithDelay en w d actionDescription =
     (case retry_expiration (Headers d) of
        Inl p \<Rightarrow> Inl (p, w)
      | Inr expiration \<Rightarrow>
          (case retry_count (Headers d) of
             Inl p \<Rightarrow> Inl (p, w)
           | Inr retryCount \<Rightarrow>
               if 6 < sint retryCount then
                 Inr (Ack (logEvent LError ''Unable to performe this operation. Give up on tries'' w))
               else
                 let headers = [(''x-retry-count'', VInt32 retryCount)];
                     (e, w1) = Publish en w ''retry.ex'' ''''
                                 \<lparr>pub_Headers = headers, DeliveryMode = Persistent,
                                  ContentType = ''application/json'',
                                  Expiration = Itoa expiration, pub_Body = Body d\<rparr>
                 in Inr (if e then logEvent LError ''Unable to republish message for retry'' w1
                         else w1)))"

section \<open>Collaborators\<close>

text \<open>
  Modelled from the spec: \<^verbatim>\<open>db.Service.UpdateRequest\<close> is not among the sources. The
  spec gives the filter \<^verbatim>\<open>{_id: id}\<close> and the change \<^verbatim>\<open>{$set: {...}}\<close>: a successful call
  sets the field of the document with that identifier, a failed call changes nothing.
\<close>

definition apply_change :: "change \<Rightarrow> document \<Rightarrow> document" where
  "apply_change c doc =
     (case c of
        SetAssignees xs \<Rightarrow> doc\<lparr>doc_assignees := Some xs\<rparr>
      | SetOnserverStatus s \<Rightarrow> doc\<lparr>doc_onserverStatus := Some s\<rparr>)"

definition UpdateRequest :: "env \<Rightarrow> world \<Rightarrow> objectid \<Rightarrow> change \<Rightarrow> bool \<times> world" where
  "UpdateRequest en w i c =
     (let e = db_err en (trace w) i c;
          w1 = emit (EDbSet i c (\<not> e)) w
      in if e then (True, w1)
         else (False,
               case store w1 i of
                 None \<Rightarrow> w1
               | Some doc \<Rightarrow> w1\<lparr>store := (store w1)(i \<mapsto> apply_change c doc)\<rparr>))"

text \<open>\<^verbatim>\<open>mailer.Send(template, {"link": link}, subject, recipient)\<close>.\<close>

definition Send :: "env \<Rightarrow> world \<Rightarrow> string \<Rightarrow> string \<Rightarrow> string \<Rightarrow> string \<Rightarrow> bool \<times> world" where
  "Send en w template link subject recipient =
     (let e = mail_err en (trace w) template link subject recipient
      in (e, emit (EMail template link subject recipient (\<not> e)) w))"

section \<open>Helpers of the handlers\<close>

definition updateCache :: "env \<Rightarrow> world \<Rightarrow> WhitelistRequest \<Rightarrow> world" where
  "updateCache en w request =
     (let e1 = cache_all_err en (trace w);
          w1 = emit (ECacheAllRequests (\<not> e1)) w;
          w2 = (if e1 then logEvent LWarning ''Unable to refresh all requests in cache'' w1 else w1);
          e2 = cache_stats_err en (trace w2);
          w3 = emit (ECacheRealTimeStats (\<not> e2)) w2
      in if e2 then logEvent LWarning ''Unable to update stats in cache'' w3 else w3)"

definition issueRCON :: "env \<Rightarrow> world \<Rightarrow> string \<Rightarrow> bool \<times> world" where
  "issueRCON en w command =
     (let e = rcon_err en (trace w) command;
          w1 = emit (ERcon command (\<not> e)) w
      in if e then (True, w1)
         else (False, logEvent LInfo ''Command has been issued successfully on the game server'' w1))"

definition updateOnserverStatus :: "env \<Rightarrow> world \<Rightarrow> WhitelistRequest \<Rightarrow> string \<Rightarrow> world" where
  "updateOnserverStatus en w request status =
     (let (e, w1) = UpdateRequest en w (ID request) (SetOnserverStatus status)
      in if e then logEvent LError ''Unable to update onserver status'' w1 else w1)"

definition emailDecision :: "env \<Rightarrow> world \<Rightarrow> WhitelistRequest \<Rightarrow> bool \<times> world" where
  "emailDecision en w whitelistRequest =
     (case EncodeAndEncrypt en (ID whitelistRequest) (passphrase en) of
        None \<Rightarrow> (True, logEvent LError ''Failed to encode requestID Token'' w)
      | Some requestIDToken \<Rightarrow>
          let (subject, template) =
                (if Status whitelistRequest = StatusApproved
                 then (approvedEmailTitle en, ''./mailer/templates/approve.html'')
                 else (deniedEmailTitle en, ''./mailer/templates/deny.html''));
              (e, w1) = Send en w template requestIDToken subject (Email whitelistRequest)
          in if e then (True, logEvent LError ''Failed to send decision email'' w1)
             else (False, logEvent LInfo ''Decision email sent'' w1))"

definition emailConfirmation :: "env \<Rightarrow> world \<Rightarrow> WhitelistRequest \<Rightarrow> bool \<times> world" where
  "emailConfirmation en w whitelistRequest =
     (case EncodeAndEncrypt en (ID whitelistRequest) (passphrase en) of
        None \<Rightarrow> (True, logEvent LError ''Failed to encode requestID Token'' w)
      | Some requestIDToken \<Rightarrow>
          let confirmationLink = FRONTEND_DEPLOYED_URL en @ ''status/'' @ requestIDToken;
              (e, w1) = Send en w ''./mailer/templates/confirmation.html'' confirmationLink
                          (confirmationEmailTitle en) (Email whitelistRequest)
          in if e then (True, logEvent LError ''Failed to send confirmation email'' w1)
             else (False, logEvent LInfo ''Confirmation email sent'' w1))"

section \<open>Op dispatcher\<close>

text \<open>The swap closure passed to \<^verbatim>\<open>rand.Shuffle\<close>: \<^verbatim>\<open>ops[i], ops[j] = ops[j], ops[i]\<close>.\<close>

definition swap :: "nat \<Rightarrow> nat \<Rightarrow> 'a list \<Rightarrow> 'a list" where
  "swap i j xs = xs[i := xs ! j, j := xs ! i]"

text \<open>
  \<^verbatim>\<open>rand.Shuffle(n, swap)\<close> runs \<^verbatim>\<open>for i := n - 1; i > 0; i-- { j := Intn(i + 1); swap(i, j) }\<close>.
  The random source answers with any number; it is reduced below its bound.
\<close>

fun shuffle_from :: "(nat \<Rightarrow> nat) \<Rightarrow> nat \<Rightarrow> 'a list \<Rightarrow> 'a list" where
  "shuffle_from rnd 0 xs = xs"
| "shuffle_from rnd (Suc k) xs =
     shuffle_from rnd k (swap (Suc k) (rnd (Suc (Suc k)) mod Suc (Suc k)) xs)"

definition Shuffle :: "(nat \<Rightarrow> nat) \<Rightarrow> nat \<Rightarrow> 'a list \<Rightarrow> 'a list" where
  "Shuffle rnd n xs = shuffle_from rnd (n - 1) xs"

text \<open>
  The slice expression \<^verbatim>\<open>s[:n]\<close>: it panics when \<open>n\<close> is negative or beyond the capacity,
  and otherwise reaches into the backing array beyond the length.
\<close>

definition slice_to :: "'a list \<Rightarrow> 'a list \<Rightarrow> int \<Rightarrow> panic + 'a list" where
  "slice_to xs spare n =
     (if n < 0 \<or> int (length xs + length spare) < n then Inl SliceBounds
      else Inr (take (nat n) (xs @ spare)))"

definition getTargetOps :: "env \<Rightarrow> event list \<Rightarrow> panic + string list" where
  "getTargetOps en hist =
     (if dispatchingStrategy en = ''Broadcast'' then Inr (ops en)
      else
        let n = randomDispatchingThreshold en;
            shuffled = Shuffle (rand_Intn en hist) (length (ops en)) (ops en)
        in slice_to shuffled (ops_spare en) n)"

section \<open>Action e-mails to the moderators\<close>

text \<open>
  The loop of \<^verbatim>\<open>emailToOps\<close> over the selected moderators. \<open>Inl\<close> is the early
  \<^verbatim>\<open>return 0, err\<close> on a failed encryption of a moderator's address.
\<close>

fun emailToOps_loop ::
  "env \<Rightarrow> string \<Rightarrow> string \<Rightarrow> string list \<Rightarrow> string list \<Rightarrow> int \<Rightarrow> world
     \<Rightarrow> world + (string list \<times> int \<times> world)" where
  "emailToOps_loop en subject requestIDToken [] assignees successCount w =
     Inr (assignees, successCount, w)"
| "emailToOps_loop en subject requestIDToken (op # rest) assignees successCount w =
     (case EncodeAndEncrypt en op (passphrase en) of
        None \<Rightarrow> Inl (logEvent LError ''Failed to encode opEmail Token'' w)
      | Some opEmailToken \<Rightarrow>
          let opLink = FRONTEND_DEPLOYED_URL en @ ''action/'' @ requestIDToken
                         @ ''?adm='' @ opEmailToken;
              (e, w1) = Send en w ''./mailer/templates/ops.html'' opLink subject op
          in if e then
               emailToOps_loop en subject requestIDToken rest assignees successCount
                 (logEvent LError ''Failed to send email to op'' w1)
             else
               emailToOps_loop en subject requestIDToken rest (assignees @ [op])
                 (successCount + 1) (logEvent LInfo ''Action email sent to op'' w1))"

text \<open>The result is \<open>(successCount, err)\<close> with \<open>err = True\<close> for a non-nil error.\<close>

definition emailToOps ::
  "env \<Rightarrow> world \<Rightarrow> WhitelistRequest \<Rightarrow> int \<Rightarrow> ((int \<times> bool) \<times> world) outcome" where
  "emailToOps en w whitelistRequest quoram =
     (let subject = ''[Action Required] Whitelist request from '' @ Username whitelistRequest
      in case EncodeAndEncrypt en (ID whitelistRequest) (passphrase en) of
           None \<Rightarrow> Inr ((0, True), logEvent LError ''Failed to encode requestID Token'' w)
         | Some requestIDToken \<Rightarrow>
             (case getTargetOps en (trace w) of
                Inl p \<Rightarrow> Inl (p, w)
              | Inr targets \<Rightarrow>
                  (case emailToOps_loop en subject requestIDToken targets [] 0 w of
                     Inl w1 \<Rightarrow> Inr ((0, True), w1)
                   | Inr (assignees, successCount, w1) \<Rightarrow>
                       let w2 =
                             (if 0 < length assignees then
                                (let (e, w') = UpdateRequest en w1 (ID whitelistRequest)
                                                 (SetAssignees assignees)
                                 in if e then
                                      logEvent LError
                                        ''Unable to update request db object with assignees metadata'' w'
                                    else w')
                              else w1)
                       in if quoram \<le> successCount then Inr ((successCount, False), w2)
                          else Inr ((successCount, True), w2))))"

section \<open>Handlers\<close>

definition processApproval :: "env \<Rightarrow> world \<Rightarrow> Delivery \<Rightarrow> WhitelistRequest \<Rightarrow> world outcome" where
  "processApproval en w d request =
     (let w1 = logEvent LInfo ''Received new task'' w;
          w2 = updateCache en w1 request;
          (err, w3) = issueRCON en w2 (''whitelist add '' @ Username request)
      in if err then
           retryMsgWithDelay en
             (logEvent LWarning ''Unable to whitelist user at this moment. Will retry later.'' w3)
             d (''Whitelist '' @ Username request)
         else
           let w4 = (if map_of (Headers d) ''x-retry-count'' = None
                     then snd (emailDecision en w3 request) else w3);
               w5 = updateOnserverStatus en w4 request ''Whitelisted''
           in Inr (Ack w5))"

definition processDenial :: "env \<Rightarrow> world \<Rightarrow> Delivery \<Rightarrow> WhitelistRequest \<Rightarrow> world outcome" where
  "processDenial en w d request =
     (let w1 = logEvent LInfo ''Received new task'' w;
          w2 = updateCache en w1 request;
          w3 = snd (emailDecision en w2 request)
      in Inr (Ack w3))"

definition processBan :: "env \<Rightarrow> world \<Rightarrow> Delivery \<Rightarrow> WhitelistRequest \<Rightarrow> world outcome" where
  "processBan en w d request =
     (let w1 = logEvent LInfo ''Received new task'' w;
          (err, w2) = issueRCON en w1 (''ban '' @ Username request);
          r = (if err then
                 retryMsgWithDelay en
                   (logEvent LWarning
                      ''Unable to ban user on the game server at this moment. Will retry later.'' w2)
                   d (''Ban '' @ Username request)
               else Inr w2)
      in case r of
           Inl pw \<Rightarrow> Inl pw
         | Inr w3 \<Rightarrow>
             let w4 = updateOnserverStatus en w3 request OnserverBanned;
                 w5 = updateCache en w4 request
             in Inr (Ack w5))"

definition processDeactivate :: "env \<Rightarrow> world \<Rightarrow> Delivery \<Rightarrow> WhitelistRequest \<Rightarrow> world outcome" where
  "processDeactivate en w d request =
     (let w1 = logEvent LInfo ''Received new task'' w;
          (err, w2) = issueRCON en w1 (''whitelist remove '' @ Username request)
      in if err then
           retryMsgWithDelay en
             (logEvent LWarning
                ''Unable to deactivate user on the game server at this moment. Will retry later.'' w2)
             d (''Deactivate '' @ Username request)
         else
           let w3 = updateOnserverStatus en w2 request OnserverNone;
               w4 = updateCache en w3 request
           in Inr (Ack w4))"

definition processNewRequest :: "env \<Rightarrow> world \<Rightarrow> Delivery \<Rightarrow> WhitelistRequest \<Rightarrow> world outcome" where
  "processNewRequest en w d request =
     (let w1 = logEvent LInfo ''Received new task'' w;
          w2 = snd (emailConfirmation en w1 request)
      in case emailToOps en w2 request (minRequiredReceiver en) of
           Inl pw \<Rightarrow> Inl pw
         | Inr ((successCount, err), w3) \<Rightarrow>
             if err then
               Inr (logEvent LError ''Failed to dispatch action emails to required number of ops'' w3)
             else Inr (Ack (updateCache en w3 request)))"

section \<open>Codec\<close>

text \<open>
  \<^verbatim>\<open>deserialize\<close> hands the body to \<^verbatim>\<open>json.NewDecoder(buf).Decode(&msg)\<close> of the
  standard library: the decoder reads the first JSON value of the buffer, leaves what follows
  it unread, and stores the value into the struct. The scanner below follows the JSON
  grammar. A text is a list of bytes.
\<close>

definition is_space :: "char \<Rightarrow> bool" where
  "is_space c = (c = CHR '' '' \<or> c = CHR 0x09 \<or> c = CHR 0x0A \<or> c = CHR 0x0D)"

fun skip_ws :: "string \<Rightarrow> string" where
  "skip_ws [] = []"
| "skip_ws (c # cs) = (if is_space c then skip_ws cs else c # cs)"

definition hex_digit :: "char \<Rightarrow> nat option" where
  "hex_digit c =
     (let n = (of_char c :: nat)
      in if 48 \<le> n \<and> n \<le> 57 then Some (n - 48)
         else if 97 \<le> n \<and> n \<le> 102 then Some (n - 87)
         else if 65 \<le> n \<and> n \<le> 70 then Some (n - 55)
         else None)"

fun hex4 :: "string \<Rightarrow> nat option" where
  "hex4 (a # b # c # d # r) =
     (case (hex_digit a, hex_digit b, hex_digit c, hex_digit d) of
        (Some x, Some y, Some z, Some u) \<Rightarrow> Some (((x * 16 + y) * 16 + z) * 16 + u)
      | _ \<Rightarrow> None)"
| "hex4 _ = None"

definition utf8 :: "nat \<Rightarrow> string" where
  "utf8 cp =
     (if cp < 0x80 then [char_of cp]
      else if cp < 0x800 then [char_of (0xC0 + cp div 64), char_of (0x80 + cp mod 64)]
      else if cp < 0x10000 then
        [char_of (0xE0 + cp div 4096), char_of (0x80 + cp div 64 mod 64),
         char_of (0x80 + cp mod 64)]
      else
        [char_of (0xF0 + cp div 262144), char_of (0x80 + cp div 4096 mod 64),
         char_of (0x80 + cp div 64 mod 64), char_of (0x80 + cp mod 64)])"

definition escape_char :: "char \<Rightarrow> char option" where
  "escape_char e =
     (if e = CHR 0x22 \<or> e = CHR 0x5C \<or> e = CHR ''/'' then Some e
      else if e = CHR ''b'' then Some (CHR 0x08)
      else if e = CHR ''f'' then Some (CHR 0x0C)
      else if e = CHR ''n'' then Some (CHR 0x0A)
      else if e = CHR ''r'' then Some (CHR 0x0D)
      else if e = CHR ''t'' then Some (CHR 0x09)
      else None)"

text \<open>The low half of a surrogate pair: a second \<^verbatim>\<open>\u\<close> escape right after the first.\<close>

definition second_escape :: "string \<Rightarrow> nat option" where
  "second_escape s =
     (case s of
        b # u # r \<Rightarrow> if b = CHR 0x5C \<and> u = CHR ''u'' then hex4 r else None
      | _ \<Rightarrow> None)"

text \<open>
  The number of bytes of the UTF-8 sequence at the head of a text, as \<^verbatim>\<open>utf8.DecodeRune\<close>
  takes it: 0 when the head is no well-formed sequence.
\<close>

definition continuation :: "char \<Rightarrow> bool" where
  "continuation c = (0x80 \<le> (of_char c :: nat) \<and> (of_char c :: nat) \<le> 0xBF)"

definition rune_size :: "string \<Rightarrow> nat" where
  "rune_size cs =
     (case cs of
        [] \<Rightarrow> 0
      | c # r \<Rightarrow>
          (let n = (of_char c :: nat)
           in if n < 0x80 then 1
              else if 0xC2 \<le> n \<and> n \<le> 0xDF then
                (case r of
                   c1 # _ \<Rightarrow> if continuation c1 then 2 else 0
                 | _ \<Rightarrow> 0)
              else if 0xE0 \<le> n \<and> n \<le> 0xEF then
                (case r of
                   c1 # c2 # _ \<Rightarrow>
                     if (if n = 0xE0 then 0xA0 else 0x80) \<le> (of_char c1 :: nat)
                        \<and> (of_char c1 :: nat) \<le> (if n = 0xED then 0x9F else 0xBF)
                        \<and> continuation c2
                     then 3 else 0
                 | _ \<Rightarrow> 0)
              else if 0xF0 \<le> n \<and> n \<le> 0xF4 then
                (case r of
                   c1 # c2 # c3 # _ \<Rightarrow>
                     if (if n = 0xF0 then 0x90 else 0x80) \<le> (of_char c1 :: nat)
                        \<and> (of_char c1 :: nat) \<le> (if n = 0xF4 then 0x8F else 0xBF)
                        \<and> continuation c2 \<and> continuation c3
                     then 4 else 0
                 | _ \<Rightarrow> 0)
              else 0))"

text \<open>
  The text of a string after its opening quote, up to the closing quote, unquoted. A lone
  surrogate becomes U+FFFD, and so does each byte that starts no well-formed UTF-8 sequence.
\<close>

function scan_string :: "string \<Rightarrow> string \<Rightarrow> (string \<times> string) option" where
  "scan_string acc [] = None"
| "scan_string acc (c # cs) =
     (if c = CHR 0x22 then Some (acc, cs)
      else if c = CHR 0x5C then
        (case cs of
           [] \<Rightarrow> None
         | e # r \<Rightarrow>
             if e = CHR ''u'' then
               (case hex4 r of
                  None \<Rightarrow> None
                | Some cp \<Rightarrow>
                    if 0xD800 \<le> cp \<and> cp < 0xE000 then
                      (case second_escape (drop 4 r) of
                         None \<Rightarrow> scan_string (acc @ utf8 0xFFFD) (drop 4 r)
                       | Some lo \<Rightarrow>
                           if cp < 0xDC00 \<and> 0xDC00 \<le> lo \<and> lo < 0xE000 then
                             scan_string
                               (acc @ utf8 (0x10000 + (cp - 0xD800) * 1024 + (lo - 0xDC00)))
                               (drop 10 r)
                           else scan_string (acc @ utf8 0xFFFD) (drop 4 r))
                    else scan_string (acc @ utf8 cp) (drop 4 r))
             else
               (case escape_char e of
                  None \<Rightarrow> None
                | Some x \<Rightarrow> scan_string (acc @ [x]) r))
      else if (of_char c :: nat) < 0x20 then None
      else if (of_char c :: nat) < 0x80 then scan_string (acc @ [c]) cs
      else if rune_size (c # cs) = 0 then scan_string (acc @ utf8 0xFFFD) cs
      else scan_string (acc @ take (rune_size (c # cs)) (c # cs)) (drop (rune_size (c # cs) - 1) cs))"
  by pat_completeness auto
termination
  by (relation "measure (\<lambda>(acc, cs). length cs)") auto

text \<open>The literal of a number: sign, integer part, fraction, exponent.\<close>

definition scan_exponent :: "string \<Rightarrow> string \<Rightarrow> (string \<times> string) option" where
  "scan_exponent tok cs =
     (case cs of
        [] \<Rightarrow> Some (tok, cs)
      | e # r \<Rightarrow>
          if e = CHR ''e'' \<or> e = CHR ''E'' then
            (let (sg, r1) = (case r of
                               [] \<Rightarrow> ([], r)
                             | c # r' \<Rightarrow> if c = CHR ''+'' \<or> c = CHR ''-'' then ([c], r')
                                         else ([], r))
             in if takeWhile is_digit r1 = [] then None
                else Some (tok @ [e] @ sg @ takeWhile is_digit r1, dropWhile is_digit r1))
          else Some (tok, cs))"

definition scan_fraction :: "string \<Rightarrow> string \<Rightarrow> (string \<times> string) option" where
  "scan_fraction tok cs =
     (case cs of
        [] \<Rightarrow> Some (tok, cs)
      | c # r \<Rightarrow>
          if c = CHR ''.'' then
            (if takeWhile is_digit r = [] then None
             else scan_exponent (tok @ [c] @ takeWhile is_digit r) (dropWhile is_digit r))
          else scan_exponent tok cs)"

definition scan_number :: "string \<Rightarrow> (string \<times> string) option" where
  "scan_number cs =
     (let (sg, r0) = (case cs of
                        [] \<Rightarrow> ([], cs)
                      | c # r \<Rightarrow> if c = CHR ''-'' then ([c], r) else ([], cs))
      in case r0 of
           [] \<Rightarrow> None
         | c # r \<Rightarrow>
             if c = CHR ''0'' then scan_fraction (sg @ [c]) r
             else if is_digit c then
               scan_fraction (sg @ [c] @ takeWhile is_digit r) (dropWhile is_digit r)
             else None)"

text \<open>
  The first JSON value of a text and the text after it, for a scanner that has already
  entered \<open>d\<close> arrays and objects: entering one more than the toolchain allows is an error.
  The fuel bounds the nesting and the number of members of one container; \<^verbatim>\<open>Decode\<close> gives
  more fuel than the body has bytes, which is more than any body needs.
\<close>

definition deeper :: "nat option \<Rightarrow> nat \<Rightarrow> bool" where
  "deeper lim d = (case lim of None \<Rightarrow> False | Some l \<Rightarrow> l < d)"

fun parse_value :: "nat option \<Rightarrow> nat \<Rightarrow> nat \<Rightarrow> string \<Rightarrow> (json \<times> string) option"
  and parse_elements ::
    "nat option \<Rightarrow> nat \<Rightarrow> nat \<Rightarrow> json list \<Rightarrow> string \<Rightarrow> (json \<times> string) option"
  and parse_members ::
    "nat option \<Rightarrow> nat \<Rightarrow> nat \<Rightarrow> (string \<times> json) list \<Rightarrow> string \<Rightarrow> (json \<times> string) option"
where
  "parse_value lim d 0 cs = None"
| "parse_value lim d (Suc n) cs =
     (case skip_ws cs of
        [] \<Rightarrow> None
      | c # r \<Rightarrow>
          if c = CHR ''{'' then
            (if deeper lim (Suc d) then None
             else case skip_ws r of
                    [] \<Rightarrow> None
                  | c' # r' \<Rightarrow> if c' = CHR ''}'' then Some (JObject [], r')
                               else parse_members lim (Suc d) n [] (c' # r'))
          else if c = CHR ''['' then
            (if deeper lim (Suc d) then None
             else case skip_ws r of
                    [] \<Rightarrow> None
                  | c' # r' \<Rightarrow> if c' = CHR '']'' then Some (JArray [], r')
                               else parse_elements lim (Suc d) n [] (c' # r'))
          else if c = CHR 0x22 then
            (case scan_string [] r of
               None \<Rightarrow> None
             | Some (s, r') \<Rightarrow> Some (JString s, r'))
          else if take 4 (c # r) = ''true'' then Some (JBool True, drop 4 (c # r))
          else if take 5 (c # r) = ''false'' then Some (JBool False, drop 5 (c # r))
          else if take 4 (c # r) = ''null'' then Some (JNull, drop 4 (c # r))
          else
            (case scan_number (c # r) of
               None \<Rightarrow> None
             | Some (t, r') \<Rightarrow> Some (JNumber t, r')))"
| "parse_elements lim d 0 acc cs = None"
| "parse_elements lim d (Suc n) acc cs =
     (case parse_value lim d n cs of
        None \<Rightarrow> None
      | Some (v, r) \<Rightarrow>
          (case skip_ws r of
             [] \<Rightarrow> None
           | c # r' \<Rightarrow>
               if c = CHR '','' then parse_elements lim d n (acc @ [v]) r'
               else if c = CHR '']'' then Some (JArray (acc @ [v]), r')
               else None))"
| "parse_members lim d 0 acc cs = None"
| "parse_members lim d (Suc n) acc cs =
     (case skip_ws cs of
        [] \<Rightarrow> None
      | c # r \<Rightarrow>
          if c = CHR 0x22 then
            (case scan_string [] r of
               None \<Rightarrow> None
             | Some (k, r1) \<Rightarrow>
                 (case skip_ws r1 of
                    [] \<Rightarrow> None
                  | c1 # r2 \<Rightarrow>
                      if c1 = CHR '':'' then
                        (case parse_value lim d n r2 of
                           None \<Rightarrow> None
                         | Some (v, r3) \<Rightarrow>
                             (case skip_ws r3 of
                                [] \<Rightarrow> None
                              | c3 # r4 \<Rightarrow>
                                  if c3 = CHR '','' then parse_members lim d n (acc @ [(k, v)]) r4
                                  else if c3 = CHR ''}'' then Some (JObject (acc @ [(k, v)]), r4)
                                  else None))
                      else None))
          else None)"

text \<open>
  The comparison of a field name with a key that is not equal to it, from \<^verbatim>\<open>fold.go\<close> of
  \<^verbatim>\<open>encoding/json\<close>. \<^verbatim>\<open>caseMask\<close> clears the bit that tells a lower-case ASCII letter from
  its capital. A name with a \<^verbatim>\<open>k\<close> or an \<^verbatim>\<open>s\<close> is compared by \<^verbatim>\<open>equalFoldRight\<close>, for
  which the Kelvin sign U+212A and the long s U+017F in the key equal these letters; another
  name with a byte that is no letter by \<^verbatim>\<open>asciiEqualFold\<close>; a name of letters only by
  \<^verbatim>\<open>simpleLetterEqualFold\<close>. The names of this struct are ASCII, so the comparison of names
  with other bytes is left out.
\<close>

definition caseMask :: "char \<Rightarrow> nat" where
  "caseMask c = (let n = (of_char c :: nat) in if odd (n div 32) then n - 32 else n)"

definition ascii_letter :: "char \<Rightarrow> bool" where
  "ascii_letter c = (65 \<le> caseMask c \<and> caseMask c \<le> 90)"

fun equalFoldRight :: "string \<Rightarrow> string \<Rightarrow> bool" where
  "equalFoldRight [] t = (t = [])"
| "equalFoldRight (sb # s) [] = False"
| "equalFoldRight (sb # s) (tb # t) =
     (if (of_char tb :: nat) < 0x80 then
        (sb = tb \<or> ascii_letter sb \<and> caseMask sb = caseMask tb) \<and> equalFoldRight s t
      else if sb = CHR ''s'' \<or> sb = CHR ''S'' then
        take 2 (tb # t) = [CHR 0xC5, CHR 0xBF] \<and> equalFoldRight s (drop 1 t)
      else if sb = CHR ''k'' \<or> sb = CHR ''K'' then
        take 3 (tb # t) = [CHR 0xE2, CHR 0x84, CHR 0xAA] \<and> equalFoldRight s (drop 2 t)
      else False)"

definition asciiEqualFold :: "string \<Rightarrow> string \<Rightarrow> bool" where
  "asciiEqualFold s t =
     list_all2 (\<lambda>sb tb. sb = tb \<or> ascii_letter sb \<and> caseMask sb = caseMask tb) s t"

definition simpleLetterEqualFold :: "string \<Rightarrow> string \<Rightarrow> bool" where
  "simpleLetterEqualFold s t = list_all2 (\<lambda>sb tb. caseMask sb = caseMask tb) s t"

definition foldFunc :: "string \<Rightarrow> string \<Rightarrow> string \<Rightarrow> bool" where
  "foldFunc s =
     (if list_ex (\<lambda>b. caseMask b = 75 \<or> caseMask b = 83) s then equalFoldRight
      else if list_ex (\<lambda>b. \<not> ascii_letter b) s then asciiEqualFold
      else simpleLetterEqualFold)"

text \<open>
  Storing an object into the struct. A key selects the field with that JSON name, or else
  the first field whose name equals it under the comparison above; a key that selects no
  field is skipped. The identifier has a decoder of its own, which is given every value,
  \<^verbatim>\<open>null\<close> too; an error of this decoder ends decoding. For a string field \<^verbatim>\<open>null\<close> leaves
  the field as it is, and a value of another JSON type is remembered as the error to return
  while decoding goes on. \<^verbatim>\<open>ReadError\<close> stands for every error of reading the value from the
  buffer: \<^verbatim>\<open>io.EOF\<close>, \<^verbatim>\<open>io.ErrUnexpectedEOF\<close> and \<^verbatim>\<open>*json.SyntaxError\<close>.
\<close>

datatype decode_error = ReadError | UnmarshalTypeError | UnmarshalerError

definition field_names :: "string list" where
  "field_names = [''_id'', ''username'', ''email'', ''status'']"

definition field_of :: "string \<Rightarrow> string option" where
  "field_of k =
     (case find (\<lambda>f. f = k) field_names of
        Some f \<Rightarrow> Some f
      | None \<Rightarrow> find (\<lambda>f. foldFunc f f k) field_names)"

definition NilObjectID :: objectid where
  "NilObjectID = ''000000000000000000000000''"

definition zero_request :: WhitelistRequest where
  "zero_request = \<lparr>ID = NilObjectID, Username = [], Email = [], Status = []\<rparr>"

definition set_string_field :: "string \<Rightarrow> string \<Rightarrow> WhitelistRequest \<Rightarrow> WhitelistRequest" where
  "set_string_field f s msg =
     (if f = ''username'' then msg\<lparr>Username := s\<rparr>
      else if f = ''email'' then msg\<lparr>Email := s\<rparr>
      else msg\<lparr>Status := s\<rparr>)"

fun decode_members ::
  "env \<Rightarrow> (string \<times> json) list \<Rightarrow> WhitelistRequest \<Rightarrow> decode_error option
     \<Rightarrow> decode_error + WhitelistRequest" where
  "decode_members en [] msg saved = (case saved of None \<Rightarrow> Inr msg | Some e \<Rightarrow> Inl e)"
| "decode_members en ((k, v) # kvs) msg saved =
     (case field_of k of
        None \<Rightarrow> decode_members en kvs msg saved
      | Some f \<Rightarrow>
          if f = ''_id'' then
            (case ObjectID_UnmarshalJSON en v of
               None \<Rightarrow> Inl UnmarshalerError
             | Some i \<Rightarrow> decode_members en kvs (msg\<lparr>ID := i\<rparr>) saved)
          else
            (case v of
               JNull \<Rightarrow> decode_members en kvs msg saved
             | JString s \<Rightarrow> decode_members en kvs (set_string_field f s msg) saved
             | _ \<Rightarrow> decode_members en kvs msg
                      (if saved = None then Some UnmarshalTypeError else saved)))"

definition Decode :: "env \<Rightarrow> string \<Rightarrow> decode_error + WhitelistRequest" where
  "Decode en b =
     (case parse_value (maxNestingDepth en) 0 (Suc (length b)) b of
        None \<Rightarrow> Inl ReadError
      | Some (v, rest) \<Rightarrow>
          (case v of
             JNull \<Rightarrow> Inr zero_request
           | JObject kvs \<Rightarrow> decode_members en kvs zero_request None
           | _ \<Rightarrow> Inl UnmarshalTypeError))"

definition deserialize :: "env \<Rightarrow> string \<Rightarrow> decode_error + WhitelistRequest" where
  "deserialize en b = Decode en b"





section \<open>Main loop\<close>

text \<open>
  The branch \<^verbatim>\<open>case d := <-worker.delivery\<close> of the \<^verbatim>\<open>select\<close> in \<^verbatim>\<open>runLoop\<close>, for one
  delivery. The \<^verbatim>\<open>switch\<close> has no default case.
\<close>

definition runLoop_delivery :: "env \<Rightarrow> world \<Rightarrow> Delivery \<Rightarrow> world outcome" where
  "runLoop_delivery en w d =
     (case Body d of
        None \<Rightarrow> Inr w
      | Some b \<Rightarrow>
          (case deserialize en b of
             Inl err \<Rightarrow>
               Inr (Ack (logEvent LError ''Unable to decode message into whitelistRequest'' w))
           | Inr whitelistRequest \<Rightarrow>
               if Status whitelistRequest = StatusApproved then processApproval en w d whitelistRequest
               else if Status whitelistRequest = StatusDenied then processDenial en w d whitelistRequest
               else if Status whitelistRequest = StatusPending then processNewRequest en w d whitelistRequest
               else if Status whitelistRequest = StatusDeactivated then processDeactivate en w d whitelistRequest
               else if Status whitelistRequest = StatusBanned then processBan en w d whitelistRequest
               else Inr w))"

text \<open>The deliveries of a run, one after the other; a panic ends the run.\<close>

fun runLoop :: "env \<Rightarrow> world \<Rightarrow> Delivery list \<Rightarrow> world outcome" where
  "runLoop en w [] = Inr w"
| "runLoop en w (d # ds) =
     (case runLoop_delivery en w d of
        Inl pw \<Rightarrow> Inl pw
      | Inr w' \<Rightarrow> runLoop en w' ds)"

section \<open>The broker's delayed redelivery\<close>

text \<open>
  The broker is outside the worker. A message published to the retry exchange waits in the
  retry queue until its expiration has passed and is then dead-lettered to the work queue;
  the broker stamps the death trace, whose head records the expiration the message had.
\<close>

definition dead_letter :: "Publishing \<Rightarrow> Delivery" where
  "dead_letter m =
     \<lparr>Headers =
        (''x-death'',
         VArray [VTable [(''count'', VInt64 1), (''reason'', VString ''expired''),
                         (''queue'', VString ''retry.queue''), (''exchange'', VString ''retry.ex''),
                         (''original-expiration'', VString (Expiration m))]])
        # pub_Headers m,
      Body = pub_Body m\<rparr>"

section \<open>Reading a trace\<close>

text \<open>The messages that were published to an exchange, in order.\<close>

fun published_to :: "string \<Rightarrow> event list \<Rightarrow> Publishing list" where
  "published_to x [] = []"
| "published_to x (EPublish x' k m ok # es) =
     (if x' = x \<and> ok then m # published_to x es else published_to x es)"
| "published_to x (e # es) = published_to x es"

text \<open>The recipients of the e-mails of a template that were sent, in order.\<close>

fun sent_to :: "string \<Rightarrow> event list \<Rightarrow> string list" where
  "sent_to t [] = []"
| "sent_to t (EMail t' link subject recipient ok # es) =
     (if t' = t \<and> ok then recipient # sent_to t es else sent_to t es)"
| "sent_to t (e # es) = sent_to t es"

text \<open>The calls of the mailer with the approve or the deny template, sent or not.\<close>

fun decision_mails :: "event list \<Rightarrow> nat" where
  "decision_mails [] = 0"
| "decision_mails (EMail t link subject recipient ok # es) =
     (if t = ''./mailer/templates/approve.html'' \<or> t = ''./mailer/templates/deny.html''
      then Suc (decision_mails es) else decision_mails es)"
| "decision_mails (e # es) = decision_mails es"

text \<open>The template of the action e-mails to the moderators.\<close>

definition action_template :: string where
  "action_template = ''./mailer/templates/ops.html''"

text \<open>The calls of the mailer with a template, in order: the recipient and whether it was sent.\<close>

fun mailed :: "string \<Rightarrow> event list \<Rightarrow> (string \<times> bool) list" where
  "mailed t [] = []"
| "mailed t (EMail t' link subject recipient ok # es) =
     (if t' = t then (recipient, ok) # mailed t es else mailed t es)"
| "mailed t (e # es) = mailed t es"

text \<open>The world in which a step that returns a value ends.\<close>

definition world_of :: "('a \<times> world) outcome \<Rightarrow> world" where
  "world_of r = (case r of Inl (p, w) \<Rightarrow> w | Inr (x, w) \<Rightarrow> w)"

fun is_db_set :: "event \<Rightarrow> bool" where
  "is_db_set (EDbSet i c ok) = True"
| "is_db_set e = False"


section \<open>Retry chains\<close>


text \<open>
  The Approved handler along a retry chain: the delivery is handled, and when the handler
  has republished the message, the dead-lettered message is handled next, at most \<open>k\<close>
  times. The body is the same all along, so the request is.
\<close>

fun approval_chain :: "env \<Rightarrow> nat \<Rightarrow> world \<Rightarrow> Delivery \<Rightarrow> WhitelistRequest \<Rightarrow> world outcome" where
  "approval_chain en 0 w d request = Inr w"
| "approval_chain en (Suc k) w d request =
     (case processApproval en w d request of
        Inl pw \<Rightarrow> Inl pw
      | Inr w' \<Rightarrow>
          (case published_to ''retry.ex'' (new_events w w') of
             [] \<Rightarrow> Inr w'
           | m # ms \<Rightarrow> approval_chain en k w' (dead_letter m) request))"

text \<open>
  The world in which \<^verbatim>\<open>processNewRequest\<close> calls \<^verbatim>\<open>emailToOps\<close>: after its log record and
  the confirmation e-mail.
\<close>

definition after_confirmation :: "env \<Rightarrow> world \<Rightarrow> WhitelistRequest \<Rightarrow> world" where
  "after_confirmation en w request =
     snd (emailConfirmation en (logEvent LInfo ''Received new task'' w) request)"

section \<open>Concrete inputs\<close>

definition w0 :: world where
  "w0 = \<lparr>trace = [], store = Map.empty\<rparr>"

text \<open>
  A configuration with three moderators, broadcast dispatching and a quorum of two, in
  which every collaborator succeeds.
\<close>

definition env0 :: env where
  "env0 =
     \<lparr>ops = [''m1@x'', ''m2@x'', ''m3@x''], ops_spare = [],
      dispatchingStrategy = ''Broadcast'', randomDispatchingThreshold = 2,
      minRequiredReceiver = 2, passphrase = ''secret'',
      approvedEmailTitle = ''Approved'', deniedEmailTitle = ''Denied'',
      confirmationEmailTitle = ''Received'', FRONTEND_DEPLOYED_URL = ''http://front/'',
      EncodeAndEncrypt = (\<lambda>text pass. Some (''tok-'' @ text)),
      rcon_err = (\<lambda>hist cmd. False),
      mail_err = (\<lambda>hist template link subject recipient. False),
      ObjectID_UnmarshalJSON =
        (\<lambda>v. case v of JString s \<Rightarrow> if length s = 24 then Some s else None | _ \<Rightarrow> None),
      maxNestingDepth = Some 10000,
      db_err = (\<lambda>hist i c. False),
      cache_all_err = (\<lambda>hist. False), cache_stats_err = (\<lambda>hist. False),
      publish_err = (\<lambda>hist m. False), rand_Intn = (\<lambda>hist n. 0)\<rparr>"

definition alice :: WhitelistRequest where
  "alice = \<lparr>ID = ''665000000000000000000001'', Username = ''alice'', Email = ''a@x'',
            Status = ''Approved''\<rparr>"

text \<open>A first delivery, without headers.\<close>

definition first_delivery :: Delivery where
  "first_delivery = \<lparr>Headers = [], Body = Some ''{}''\<rparr>"







text \<open>The second arrival of a chain: the first republished message, dead-lettered.\<close>

definition second_delivery :: Delivery where
  "second_delivery =
     dead_letter \<lparr>pub_Headers = [(''x-retry-count'', VInt32 1)], DeliveryMode = Persistent,
                  ContentType = ''application/json'', Expiration = ''900000'',
                  pub_Body = Some ''{}''\<rparr>"

section \<open>Kinds of events\<close>

datatype kind = KAck | KPublish | KLog | KRcon | KMail | KDb | KCache

fun kind_of :: "event \<Rightarrow> kind" where
  "kind_of EAck = KAck"
| "kind_of (EPublish x k m ok) = KPublish"
| "kind_of (ELog l msg) = KLog"
| "kind_of (ERcon c ok) = KRcon"
| "kind_of (EMail t link subject recipient ok) = KMail"
| "kind_of (EDbSet i c ok) = KDb"
| "kind_of (ECacheAllRequests ok) = KCache"
| "kind_of (ECacheRealTimeStats ok) = KCache"

text \<open>A step from \<open>w\<close> to \<open>w'\<close> that has only added events of the kinds \<open>K\<close> to the trace.\<close>

definition appended :: "kind set \<Rightarrow> world \<Rightarrow> world \<Rightarrow> bool" where
  "appended K w w' \<longleftrightarrow> (\<exists>evs. trace w' = trace w @ evs \<and> kind_of ` set evs \<subseteq> K)"

text \<open>The same configuration with a game server that refuses every command.\<close>

definition env_rcon_down :: env where
  "env_rcon_down = env0\<lparr>rcon_err := (\<lambda>hist cmd. True)\<rparr>"

text \<open>The body of an Approved task, and its first delivery.\<close>

definition approved_body :: string where
  \<open>approved_body =
     ''{"_id":"665000000000000000000001","username":"alice","email":"a@x","status":"Approved"}''\<close>

definition approved_delivery :: Delivery where
  "approved_delivery = \<lparr>Headers = [], Body = Some approved_body\<rparr>"

text \<open>Random dispatching: a threshold of two, and a threshold above the three moderators.\<close>

definition env_random :: env where
  "env_random = env0\<lparr>dispatchingStrategy := ''Random''\<rparr>"

definition env_random_over :: env where
  "env_random_over = env0\<lparr>dispatchingStrategy := ''Random'', randomDispatchingThreshold := 4\<rparr>"

text \<open>The same with a backing array of capacity four, its last element the empty string.\<close>

definition env_random_spare :: env where
  "env_random_spare = env_random_over\<lparr>ops_spare := [[]]\<rparr>"

text \<open>A Pending task of the same applicant.\<close>

definition pending_alice :: WhitelistRequest where
  "pending_alice = alice\<lparr>Status := ''Pending''\<rparr>"

text \<open>A mailer that fails every time, and a mailer that only reaches the first moderator.\<close>

definition env_mail_down :: env where
  "env_mail_down = env0\<lparr>mail_err := (\<lambda>hist template link subject recipient. True)\<rparr>"

definition env_mail_m1 :: env where
  "env_mail_m1 =
     env0\<lparr>mail_err := (\<lambda>hist template link subject recipient.
                           template = ''./mailer/templates/ops.html'' \<and> recipient \<noteq> ''m1@x'')\<rparr>"

text \<open>An encryption that fails for the second moderator, with a quorum of one.\<close>

definition env_encrypt_m2 :: env where
  "env_encrypt_m2 =
     env0\<lparr>minRequiredReceiver := 1,
          EncodeAndEncrypt := (\<lambda>text pass. if text = ''m2@x'' then None else Some (''tok-'' @ text))\<rparr>"

text \<open>An encryption that fails for every text.\<close>

definition env_encrypt_down :: env where
  "env_encrypt_down = env0\<lparr>EncodeAndEncrypt := (\<lambda>text pass. None)\<rparr>"


text \<open>A store that holds the application with assignees of an earlier attempt.\<close>

definition w_assigned :: world where
  "w_assigned =
     \<lparr>trace = [],
      store = [''665000000000000000000001'' \<mapsto>
                 \<lparr>doc_assignees = Some [''m1@x''], doc_onserverStatus = None\<rparr>]\<rparr>"

text \<open>A store that holds the application as it was created.\<close>

definition w_fresh :: world where
  "w_fresh =
     \<lparr>trace = [],
      store = [''665000000000000000000001'' \<mapsto>
                 \<lparr>doc_assignees = None, doc_onserverStatus = None\<rparr>]\<rparr>"

text \<open>A task with a status that is none of the five, and its delivery.\<close>

definition archived_body :: string where
  \<open>archived_body =
     ''{"_id":"665000000000000000000001","username":"alice","email":"a@x","status":"Archived"}''\<close>

definition archived_delivery :: Delivery where
  "archived_delivery = \<lparr>Headers = [], Body = Some archived_body\<rparr>"



text \<open>The undecodable payload of the spec's sixth scenario.\<close>

definition broken_body :: string where
  "broken_body = ''{]}''"





section \<open>Decimal conversion: reading back what was written\<close>










section \<open>Retry policy\<close>




lemma retryMsgWithDelay_republish:
  assumes "retry_expiration (Headers d) = Inr ex" and "retry_count (Headers d) = Inr rc"
    and "sint rc \<le> 6"
  shows "\<exists>ok. new_events w (final (retryMsgWithDelay en w d a)) =
           EPublish ''retry.ex'' ''''
             \<lparr>pub_Headers = [(''x-retry-count'', VInt32 rc)], DeliveryMode = Persistent,
              ContentType = ''application/json'', Expiration = Itoa ex, pub_Body = Body d\<rparr> ok
           # (if ok then [] else [ELog LError ''Unable to republish message for retry''])"
proof -
  let ?m = "\<lparr>pub_Headers = [(''x-retry-count'', VInt32 rc)], DeliveryMode = Persistent,
              ContentType = ''application/json'', Expiration = Itoa ex, pub_Body = Body d\<rparr>"
  have h: "new_events w (final (retryMsgWithDelay en w d a)) =
           EPublish ''retry.ex'' '''' ?m (\<not> publish_err en (trace w) ?m)
           # (if \<not> publish_err en (trace w) ?m then []
              else [ELog LError ''Unable to republish message for retry''])"
    using assms
    by (simp add: retryMsgWithDelay_def Publish_def Let_def final_def new_events_def emit_def
          logEvent_def)
  show ?thesis
    by (rule exI [where x = "\<not> publish_err en (trace w) ?m"]) (rule h)
qed

lemma published_by_retry:
  assumes "EPublish x k m ok \<in> set (new_events w (final (retryMsgWithDelay en w d a)))"
  shows "x = ''retry.ex'' \<and>
         (\<exists>rc. retry_count (Headers d) = Inr rc \<and> sint rc \<le> 6 \<and>
                pub_Headers m = [(''x-retry-count'', VInt32 rc)])"
  using assms
  by (auto simp: retryMsgWithDelay_def final_def new_events_def Publish_def Let_def emit_def
        logEvent_def Ack_def split: sum.splits if_splits)







lemma Itoa_values:
  "Itoa 900000 = ''900000''" "Itoa 1800000 = ''1800000''" "Itoa 3600000 = ''3600000''"
  "Itoa 7200000 = ''7200000''" "Itoa 14400000 = ''14400000''" "Itoa 28800000 = ''28800000''"
  "Itoa 57600000 = ''57600000''"
  by (simp_all add: Itoa_def decimal.simps digit_char_def char_of_def bit_iff_odd)



section \<open>Retry delay\<close>













section \<open>Steps that append to the trace\<close>

lemma appended_refl: "appended K w w"
  by (simp add: appended_def)

lemma appended_trans:
  assumes "appended K w w1" and "appended K w1 w2"
  shows "appended K w w2"
proof -
  from assms obtain e1 e2 where
    t: "trace w1 = trace w @ e1" "trace w2 = trace w1 @ e2"
    and k: "kind_of ` set e1 \<subseteq> K" "kind_of ` set e2 \<subseteq> K"
    by (auto simp: appended_def)
  from t have "trace w2 = trace w @ (e1 @ e2)"
    by simp
  moreover from k have "kind_of ` set (e1 @ e2) \<subseteq> K"
    by auto
  ultimately show ?thesis
    unfolding appended_def by blast
qed

lemma appended_mono: "appended K w w' \<Longrightarrow> K \<subseteq> K' \<Longrightarrow> appended K' w w'"
  by (auto simp: appended_def)

lemma appended_emit: "kind_of e \<in> K \<Longrightarrow> appended K w (emit e w)"
  by (simp add: appended_def emit_def)

lemma appended_new_events: "appended K w w' \<Longrightarrow> kind_of ` set (new_events w w') \<subseteq> K"
  by (auto simp: appended_def new_events_def)

lemma new_events_split:
  "appended K w w1 \<Longrightarrow> appended K' w1 w2 \<Longrightarrow>
     new_events w w2 = new_events w w1 @ new_events w1 w2"
  by (auto simp: appended_def new_events_def)

lemma decision_mails_append: "decision_mails (xs @ ys) = decision_mails xs + decision_mails ys"
  by (induction xs rule: decision_mails.induct) auto

lemma decision_mails_none: "KMail \<notin> kind_of ` set evs \<Longrightarrow> decision_mails evs = 0"
  by (induction evs rule: decision_mails.induct) auto

lemma published_to_append: "published_to x (xs @ ys) = published_to x xs @ published_to x ys"
  by (induction xs rule: published_to.induct) auto

lemma published_to_none: "KPublish \<notin> kind_of ` set evs \<Longrightarrow> published_to x evs = []"
  by (induction evs rule: published_to.induct) auto

lemma sent_to_append: "sent_to t (xs @ ys) = sent_to t xs @ sent_to t ys"
  by (induction xs rule: sent_to.induct) auto


lemma no_ack: "KAck \<notin> kind_of ` set evs \<Longrightarrow> EAck \<notin> set evs"
  by force

lemma appended_step: "kind_of e \<in> K \<Longrightarrow> appended K w w' \<Longrightarrow> appended K w (emit e w')"
  by (rule appended_trans [OF _ appended_emit])

lemma appended_store: "appended K w w' \<Longrightarrow> appended K w (w'\<lparr>store := s\<rparr>)"
  by (simp add: appended_def)

lemmas appended_intros = appended_step appended_store appended_refl

lemma appended_logEvent: "KLog \<in> K \<Longrightarrow> appended K w (logEvent l msg w)"
  by (simp add: logEvent_def appended_emit)

lemma appended_Ack: "KAck \<in> K \<Longrightarrow> appended K w (Ack w)"
  by (simp add: Ack_def appended_emit)

lemma appended_updateCache: "{KLog, KCache} \<subseteq> K \<Longrightarrow> appended K w (updateCache en w r)"
  by (auto simp: updateCache_def logEvent_def Let_def intro!: appended_intros)

lemma appended_issueRCON: "{KLog, KRcon} \<subseteq> K \<Longrightarrow> appended K w (snd (issueRCON en w c))"
  by (auto simp: issueRCON_def logEvent_def Let_def intro!: appended_intros)

lemma appended_Send: "KMail \<in> K \<Longrightarrow> appended K w (snd (Send en w t l s r))"
  by (simp add: Send_def Let_def appended_emit)

lemma appended_UpdateRequest: "KDb \<in> K \<Longrightarrow> appended K w (snd (UpdateRequest en w i c))"
  by (auto simp: UpdateRequest_def Let_def split: option.splits intro!: appended_intros)

lemma appended_updateOnserverStatus:
  "{KLog, KDb} \<subseteq> K \<Longrightarrow> appended K w (updateOnserverStatus en w r s)"
  by (auto simp: updateOnserverStatus_def UpdateRequest_def logEvent_def Let_def
        split: option.splits intro!: appended_intros)

lemma appended_emailDecision:
  "{KLog, KMail} \<subseteq> K \<Longrightarrow> appended K w (snd (emailDecision en w r))"
  by (auto simp: emailDecision_def Send_def logEvent_def Let_def split: option.splits
        intro!: appended_intros)

lemma appended_emailConfirmation:
  "{KLog, KMail} \<subseteq> K \<Longrightarrow> appended K w (snd (emailConfirmation en w r))"
  by (auto simp: emailConfirmation_def Send_def logEvent_def Let_def split: option.splits
        intro!: appended_intros)

lemma appended_retryMsgWithDelay:
  "{KLog, KAck, KPublish} \<subseteq> K \<Longrightarrow> appended K w (final (retryMsgWithDelay en w d a))"
  by (auto simp: retryMsgWithDelay_def final_def Publish_def Ack_def logEvent_def Let_def
        split: sum.splits intro!: appended_intros)

section \<open>Approved handler\<close>

lemmas codec_eval = deserialize_def Decode_def is_space_def field_of_def field_names_def
  set_string_field_def zero_request_def NilObjectID_def deeper_def

lemma approved_body_decodes: "deserialize env_rcon_down approved_body = Inr alice"
  by (simp add: codec_eval approved_body_def env_rcon_down_def env0_def alice_def)

lemmas effect_defs = emit_def logEvent_def Ack_def Publish_def UpdateRequest_def Send_def
  updateCache_def issueRCON_def updateOnserverStatus_def emailDecision_def emailConfirmation_def

text \<open>
  Claim C2, at the first delivery of an Approved task when the game server refuses the
  command: the handler republishes the message to the retry exchange with retry count 1,
  expiration 900000 and the same body, and returns. The delivery is not acknowledged: on the
  republish path \<^verbatim>\<open>retryMsgWithDelay\<close> does not call \<^verbatim>\<open>d.Ack\<close>, and \<^verbatim>\<open>processApproval\<close>
  returns right after it.
\<close>

theorem approval_rcon_failure_not_acknowledged:
  "deserialize env_rcon_down approved_body = Inr alice
   \<and> new_events w0 (final (runLoop_delivery env_rcon_down w0 approved_delivery)) =
       [ELog LInfo ''Received new task'', ECacheAllRequests True, ECacheRealTimeStats True,
        ERcon ''whitelist add alice'' False,
        ELog LWarning ''Unable to whitelist user at this moment. Will retry later.'',
        EPublish ''retry.ex'' ''''
          \<lparr>pub_Headers = [(''x-retry-count'', VInt32 1)], DeliveryMode = Persistent,
           ContentType = ''application/json'', Expiration = ''900000'',
           pub_Body = Some approved_body\<rparr> True]
   \<and> EAck \<notin> set (new_events w0 (final (runLoop_delivery env_rcon_down w0 approved_delivery)))"
proof -
  have hs: "retry_expiration (Headers approved_delivery) = Inr 900000"
    "retry_count (Headers approved_delivery) = Inr 1"
    "map_of (Headers approved_delivery) ''x-retry-count'' = None"
    "Body approved_delivery = Some approved_body"
    by (simp_all add: approved_delivery_def retry_expiration_def retry_count_def)
  have st: "Status alice = StatusApproved" "Username alice = ''alice''"
    by (simp_all add: alice_def StatusApproved_def)
  have ev: "new_events w0 (final (runLoop_delivery env_rcon_down w0 approved_delivery)) =
       [ELog LInfo ''Received new task'', ECacheAllRequests True, ECacheRealTimeStats True,
        ERcon ''whitelist add alice'' False,
        ELog LWarning ''Unable to whitelist user at this moment. Will retry later.'',
        EPublish ''retry.ex'' ''''
          \<lparr>pub_Headers = [(''x-retry-count'', VInt32 1)], DeliveryMode = Persistent,
           ContentType = ''application/json'', Expiration = ''900000'',
           pub_Body = Some approved_body\<rparr> True]"
  proof -
    have "runLoop_delivery env_rcon_down w0 approved_delivery =
            processApproval env_rcon_down w0 approved_delivery alice"
      by (simp add: runLoop_delivery_def hs approved_body_decodes st)
    then show ?thesis
      by (simp add: hs st processApproval_def retryMsgWithDelay_def effect_defs
            env_rcon_down_def env0_def w0_def final_def new_events_def Itoa_values Let_def)
  qed
  show ?thesis
    by (simp add: approved_body_decodes ev)
qed

lemma decision_mails_emailDecision:
  "decision_mails (new_events w (snd (emailDecision en w r))) \<le> 1"
  by (simp add: emailDecision_def Send_def logEvent_def emit_def new_events_def Let_def
        split: option.splits)

lemma published_to_mem:
  "m \<in> set (published_to x evs) \<Longrightarrow> \<exists>k. EPublish x k m True \<in> set evs"
  by (induction evs rule: published_to.induct) (auto split: if_splits)

lemma processApproval_retry:
  assumes "issueRCON en (updateCache en (logEvent LInfo ''Received new task'' w) r)
             (''whitelist add '' @ Username r) = (True, w3)"
  shows "processApproval en w d r =
           retryMsgWithDelay en
             (logEvent LWarning ''Unable to whitelist user at this moment. Will retry later.'' w3)
             d (''Whitelist '' @ Username r)"
  using assms by (simp add: processApproval_def Let_def)

lemma processApproval_success:
  assumes "issueRCON en (updateCache en (logEvent LInfo ''Received new task'' w) r)
             (''whitelist add '' @ Username r) = (False, w3)"
  shows "processApproval en w d r =
           Inr (Ack (updateOnserverStatus en
                  (if map_of (Headers d) ''x-retry-count'' = None
                   then snd (emailDecision en w3 r) else w3) r ''Whitelisted''))"
  using assms by (simp add: processApproval_def Let_def)

lemma processApproval_prefix:
  assumes "issueRCON en (updateCache en (logEvent LInfo ''Received new task'' w) r) c = (err, w3)"
  shows "appended {KLog, KCache, KRcon} w w3"
proof -
  have "appended {KLog, KCache, KRcon} w (logEvent LInfo ''Received new task'' w)"
    by (simp add: appended_logEvent)
  moreover have "appended {KLog, KCache, KRcon} (logEvent LInfo ''Received new task'' w)
      (updateCache en (logEvent LInfo ''Received new task'' w) r)"
    by (simp add: appended_updateCache)
  moreover have "appended {KLog, KCache, KRcon}
      (updateCache en (logEvent LInfo ''Received new task'' w) r) w3"
    using appended_issueRCON [of "{KLog, KCache, KRcon}"
        "updateCache en (logEvent LInfo ''Received new task'' w) r" en c] assms
    by simp
  ultimately show ?thesis
    by (blast intro: appended_trans)
qed

text \<open>The three ways the Approved handler ends.\<close>

lemma processApproval_shape:
  obtains
    (retry) w3 where "appended {KLog, KCache, KRcon} w w3"
      "processApproval en w d r =
         retryMsgWithDelay en
           (logEvent LWarning ''Unable to whitelist user at this moment. Will retry later.'' w3)
           d (''Whitelist '' @ Username r)"
  | (first) w3 where "appended {KLog, KCache, KRcon} w w3"
      "map_of (Headers d) ''x-retry-count'' = None"
      "processApproval en w d r =
         Inr (Ack (updateOnserverStatus en (snd (emailDecision en w3 r)) r ''Whitelisted''))"
  | (again) w3 where "appended {KLog, KCache, KRcon} w w3"
      "map_of (Headers d) ''x-retry-count'' \<noteq> None"
      "processApproval en w d r = Inr (Ack (updateOnserverStatus en w3 r ''Whitelisted''))"
proof -
  obtain err w3 where
    rc: "issueRCON en (updateCache en (logEvent LInfo ''Received new task'' w) r)
           (''whitelist add '' @ Username r) = (err, w3)"
    by (cases "issueRCON en (updateCache en (logEvent LInfo ''Received new task'' w) r)
           (''whitelist add '' @ Username r)")
  have pre: "appended {KLog, KCache, KRcon} w w3"
    using rc by (rule processApproval_prefix)
  show thesis
  proof (cases err)
    case True
    with rc pre show ?thesis
      by (intro retry [of w3]) (simp_all add: processApproval_retry)
  next
    case False
    show ?thesis
    proof (cases "map_of (Headers d) ''x-retry-count'' = None")
      case True
      with rc pre False show ?thesis
        by (intro first [of w3]) (simp_all add: processApproval_success)
    next
      case h: False
      with rc pre False show ?thesis
        by (intro again [of w3]) (auto simp: processApproval_success)
    qed
  qed
qed


lemma processApproval_appended:
  "appended UNIV w (final (processApproval en w d r))"
proof (cases rule: processApproval_shape [of w en d r])
  case (retry w3)
  have "appended UNIV w3
      (logEvent LWarning ''Unable to whitelist user at this moment. Will retry later.'' w3)"
    by (simp add: appended_logEvent)
  moreover have "appended UNIV
      (logEvent LWarning ''Unable to whitelist user at this moment. Will retry later.'' w3)
      (final (processApproval en w d r))"
    unfolding retry by (rule appended_retryMsgWithDelay) simp
  moreover from retry have "appended UNIV w w3"
    by (blast intro: appended_mono)
  ultimately show ?thesis
    by (blast intro: appended_trans)
next
  case (first w3)
  have "appended UNIV w3 (snd (emailDecision en w3 r))"
    by (rule appended_emailDecision) simp
  moreover have "appended UNIV (snd (emailDecision en w3 r))
      (updateOnserverStatus en (snd (emailDecision en w3 r)) r ''Whitelisted'')"
    by (rule appended_updateOnserverStatus) simp
  moreover have "appended UNIV
      (updateOnserverStatus en (snd (emailDecision en w3 r)) r ''Whitelisted'')
      (final (processApproval en w d r))"
    unfolding first by (simp add: final_def appended_Ack)
  moreover from first have "appended UNIV w w3"
    by (blast intro: appended_mono)
  ultimately show ?thesis
    by (blast intro: appended_trans)
next
  case (again w3)
  have "appended UNIV w3 (updateOnserverStatus en w3 r ''Whitelisted'')"
    by (rule appended_updateOnserverStatus) simp
  moreover have "appended UNIV (updateOnserverStatus en w3 r ''Whitelisted'')
      (final (processApproval en w d r))"
    unfolding again by (simp add: final_def appended_Ack)
  moreover from again have "appended UNIV w w3"
    by (blast intro: appended_mono)
  ultimately show ?thesis
    by (blast intro: appended_trans)
qed

lemma decision_mails_kinds:
  "appended K w w' \<Longrightarrow> KMail \<notin> K \<Longrightarrow> decision_mails (new_events w w') = 0"
  using appended_new_events [of K w w'] by (intro decision_mails_none) auto

lemma published_to_kinds:
  "appended K w w' \<Longrightarrow> KPublish \<notin> K \<Longrightarrow> published_to x (new_events w w') = []"
  using appended_new_events [of K w w'] by (intro published_to_none) auto

lemma processApproval_decision_mails:
  "decision_mails (new_events w (final (processApproval en w d r)))
     \<le> (if map_of (Headers d) ''x-retry-count'' = None then 1 else 0)"
proof (cases rule: processApproval_shape [of w en d r])
  case (retry w3)
  let ?K = "{KLog, KCache, KRcon, KAck, KPublish}"
  have "appended ?K w3
      (logEvent LWarning ''Unable to whitelist user at this moment. Will retry later.'' w3)"
    by (simp add: appended_logEvent)
  moreover have "appended ?K
      (logEvent LWarning ''Unable to whitelist user at this moment. Will retry later.'' w3)
      (final (processApproval en w d r))"
    unfolding retry by (rule appended_retryMsgWithDelay) simp
  moreover from retry have "appended ?K w w3"
    by (auto intro: appended_mono)
  ultimately have "appended ?K w (final (processApproval en w d r))"
    by (blast intro: appended_trans)
  then have "decision_mails (new_events w (final (processApproval en w d r))) = 0"
    by (rule decision_mails_kinds) simp
  then show ?thesis by simp
next
  case (first w3)
  let ?w4 = "snd (emailDecision en w3 r)"
  let ?K = "{KLog, KDb, KAck}"
  have a: "appended {KLog, KMail} w3 ?w4"
    by (rule appended_emailDecision) simp
  have "appended ?K ?w4 (updateOnserverStatus en ?w4 r ''Whitelisted'')"
    by (rule appended_updateOnserverStatus) simp
  moreover have "appended ?K (updateOnserverStatus en ?w4 r ''Whitelisted'')
      (final (processApproval en w d r))"
    unfolding first by (simp add: final_def appended_Ack)
  ultimately have b: "appended ?K ?w4 (final (processApproval en w d r))"
    by (blast intro: appended_trans)
  from first have c: "appended {KLog, KCache, KRcon} w w3"
    by simp
  have ab: "appended UNIV w3 (final (processApproval en w d r))"
    using a b by (blast intro: appended_trans appended_mono)
  have "new_events w (final (processApproval en w d r)) =
          new_events w w3 @ new_events w3 ?w4 @ new_events ?w4 (final (processApproval en w d r))"
    using new_events_split [OF c ab] new_events_split [OF a b] by simp
  moreover have "decision_mails (new_events w w3) = 0"
    using c by (rule decision_mails_kinds) simp
  moreover have "decision_mails (new_events ?w4 (final (processApproval en w d r))) = 0"
    using b by (rule decision_mails_kinds) simp
  ultimately show ?thesis
    using decision_mails_emailDecision [of w3 en r] first(2)
    by (simp add: decision_mails_append)
next
  case (again w3)
  let ?K = "{KLog, KCache, KRcon, KDb, KAck}"
  have "appended ?K w3 (updateOnserverStatus en w3 r ''Whitelisted'')"
    by (rule appended_updateOnserverStatus) simp
  moreover have "appended ?K (updateOnserverStatus en w3 r ''Whitelisted'')
      (final (processApproval en w d r))"
    unfolding again by (simp add: final_def appended_Ack)
  moreover from again have "appended ?K w w3"
    by (auto intro: appended_mono)
  ultimately have "appended ?K w (final (processApproval en w d r))"
    by (blast intro: appended_trans)
  then have "decision_mails (new_events w (final (processApproval en w d r))) = 0"
    by (rule decision_mails_kinds) simp
  then show ?thesis by simp
qed


lemma processApproval_republished:
  assumes run: "processApproval en w d r = Inr w'"
    and pub: "published_to ''retry.ex'' (new_events w w') = m # ms"
  shows "decision_mails (new_events w w') = 0
         \<and> map_of (Headers (dead_letter m)) ''x-retry-count'' \<noteq> None"
proof (cases rule: processApproval_shape [of w en d r])
  case (retry w3)
  let ?wl = "logEvent LWarning ''Unable to whitelist user at this moment. Will retry later.'' w3"
  have fin: "final (retryMsgWithDelay en ?wl d (''Whitelist '' @ Username r)) = w'"
    using run retry by (simp add: final_def)
  have pre: "appended {KLog, KCache, KRcon} w ?wl"
    using retry(1) appended_logEvent [of "{KLog, KCache, KRcon}" w3]
    by (blast intro: appended_trans)
  have post: "appended {KLog, KAck, KPublish} ?wl w'"
    unfolding fin [symmetric] by (rule appended_retryMsgWithDelay) simp
  have split: "new_events w w' = new_events w ?wl @ new_events ?wl w'"
    using pre post by (rule new_events_split)
  have "decision_mails (new_events w ?wl) = 0" "decision_mails (new_events ?wl w') = 0"
    using pre post by (auto intro: decision_mails_kinds)
  then have mails: "decision_mails (new_events w w') = 0"
    by (simp add: split decision_mails_append)
  have "published_to ''retry.ex'' (new_events w ?wl) = []"
    using pre by (rule published_to_kinds) simp
  then have "m \<in> set (published_to ''retry.ex'' (new_events ?wl w'))"
    using pub by (simp add: split published_to_append)
  then obtain k where "EPublish ''retry.ex'' k m True \<in> set (new_events ?wl w')"
    by (blast dest: published_to_mem)
  then have "\<exists>rc. pub_Headers m = [(''x-retry-count'', VInt32 rc)]"
    using published_by_retry [of "''retry.ex''" k m True ?wl en d "''Whitelist '' @ Username r"] fin
    by auto
  then have "map_of (Headers (dead_letter m)) ''x-retry-count'' \<noteq> None"
    by (auto simp: dead_letter_def)
  with mails show ?thesis by simp
next
  case (first w3)
  let ?w4 = "snd (emailDecision en w3 r)"
  have "appended {KLog, KCache, KRcon, KMail, KDb, KAck} w w3"
    using first(1) by (auto intro: appended_mono)
  moreover have "appended {KLog, KCache, KRcon, KMail, KDb, KAck} w3 ?w4"
    by (rule appended_emailDecision) simp
  moreover have "appended {KLog, KCache, KRcon, KMail, KDb, KAck} ?w4
      (updateOnserverStatus en ?w4 r ''Whitelisted'')"
    by (rule appended_updateOnserverStatus) simp
  moreover have "appended {KLog, KCache, KRcon, KMail, KDb, KAck}
      (updateOnserverStatus en ?w4 r ''Whitelisted'') w'"
    using run first(3) by (auto simp: appended_Ack)
  ultimately have "appended {KLog, KCache, KRcon, KMail, KDb, KAck} w w'"
    by (blast intro: appended_trans)
  then have "published_to ''retry.ex'' (new_events w w') = []"
    by (rule published_to_kinds) simp
  with pub show ?thesis by simp
next
  case (again w3)
  have "appended {KLog, KCache, KRcon, KDb, KAck} w w3"
    using again(1) by (auto intro: appended_mono)
  moreover have "appended {KLog, KCache, KRcon, KDb, KAck} w3
      (updateOnserverStatus en w3 r ''Whitelisted'')"
    by (rule appended_updateOnserverStatus) simp
  moreover have "appended {KLog, KCache, KRcon, KDb, KAck}
      (updateOnserverStatus en w3 r ''Whitelisted'') w'"
    using run again(3) by (auto simp: appended_Ack)
  ultimately have "appended {KLog, KCache, KRcon, KDb, KAck} w w'"
    by (blast intro: appended_trans)
  then have "published_to ''retry.ex'' (new_events w w') = []"
    by (rule published_to_kinds) simp
  with pub show ?thesis by simp
qed

lemma approval_chain_appended:
  "appended UNIV w (final (approval_chain en k w d r))"
proof (induction k arbitrary: w d)
  case 0
  show ?case by (simp add: final_def appended_refl)
next
  case (Suc k)
  show ?case
  proof (cases "processApproval en w d r")
    case (Inl pw)
    with processApproval_appended [of w en d r] show ?thesis by simp
  next
    case (Inr w')
    with processApproval_appended [of w en d r] have step: "appended UNIV w w'"
      by (simp add: final_def)
    show ?thesis
    proof (cases "published_to ''retry.ex'' (new_events w w')")
      case Nil
      with Inr step show ?thesis by (simp add: final_def)
    next
      case (Cons m ms)
      with Inr step Suc.IH [of w' "dead_letter m"] show ?thesis
        by (auto intro: appended_trans)
    qed
  qed
qed

lemma approval_chain_decision_mails:
  "decision_mails (new_events w (final (approval_chain en k w d r)))
     \<le> (if map_of (Headers d) ''x-retry-count'' = None then 1 else 0)"
proof (induction k arbitrary: w d)
  case 0
  show ?case by (simp add: final_def new_events_def)
next
  case (Suc k)
  show ?case
  proof (cases "processApproval en w d r")
    case (Inl pw)
    with processApproval_decision_mails [of w en d r] show ?thesis by simp
  next
    case (Inr w')
    with processApproval_appended [of w en d r] have step: "appended UNIV w w'"
      by (simp add: final_def)
    show ?thesis
    proof (cases "published_to ''retry.ex'' (new_events w w')")
      case Nil
      with Inr processApproval_decision_mails [of w en d r] show ?thesis by simp
    next
      case (Cons m ms)
      let ?wf = "final (approval_chain en k w' (dead_letter m) r)"
      from processApproval_republished [OF Inr Cons]
      have zero: "decision_mails (new_events w w') = 0"
        and hd: "map_of (Headers (dead_letter m)) ''x-retry-count'' \<noteq> None"
        by simp_all
      have "new_events w ?wf = new_events w w' @ new_events w' ?wf"
        using step approval_chain_appended by (rule new_events_split)
      moreover have "decision_mails (new_events w' ?wf) = 0"
        using Suc.IH [of w' "dead_letter m"] hd by simp
      ultimately have "decision_mails (new_events w ?wf) = 0"
        using zero by (simp add: decision_mails_append)
      with Inr Cons show ?thesis by simp
    qed
  qed
qed

text \<open>
  Claim C4. One run of the Approved handler calls the mailer with a decision template at most
  once, and not at all when the delivery carries the header \<^verbatim>\<open>x-retry-count\<close>. Along a
  retry chain of any length, in which every republished message comes back dead-lettered and
  is handled again, the handler calls it at most once in all, and not at all when the first
  delivery of the chain already carries the header. A run that ends in a panic is counted
  with the events it had added.
\<close>

theorem decision_mail_only_without_retry_count:
  "decision_mails (new_events w (final (processApproval en w d request)))
     \<le> (if map_of (Headers d) ''x-retry-count'' = None then 1 else 0)
   \<and> decision_mails (new_events w (final (approval_chain en k w d request)))
     \<le> (if map_of (Headers d) ''x-retry-count'' = None then 1 else 0)"
  by (simp only: processApproval_decision_mails approval_chain_decision_mails simp_thms)

theorem decision_mail_witness:
  "decision_mails (new_events w0 (final (approval_chain env_rcon_down 7 w0 approved_delivery alice))) \<le> 1
   \<and> decision_mails (new_events w0 (final (processApproval env0 w0 second_delivery alice))) = 0
   \<and> decision_mails (new_events w0 (final (processApproval env0 w0 approved_delivery alice))) = 1"
proof -
  have h1: "map_of (Headers approved_delivery) ''x-retry-count'' = None"
    by (simp add: approved_delivery_def)
  have h2: "map_of (Headers second_delivery) ''x-retry-count'' = Some (VInt32 1)"
    by (simp add: second_delivery_def dead_letter_def)
  from decision_mail_only_without_retry_count [of w0 env_rcon_down approved_delivery alice 7] h1
  have a: "decision_mails (new_events w0 (final (approval_chain env_rcon_down 7 w0 approved_delivery alice))) \<le> 1"
    by simp
  from decision_mail_only_without_retry_count [of w0 env0 second_delivery alice 0] h2
  have b: "decision_mails (new_events w0 (final (processApproval env0 w0 second_delivery alice))) = 0"
    by simp
  have c: "decision_mails (new_events w0 (final (processApproval env0 w0 approved_delivery alice))) = 1"
    by (simp add: h1 processApproval_def effect_defs env0_def w0_def alice_def StatusApproved_def
          final_def new_events_def Let_def)
  from a b c show ?thesis
    by simp
qed

section \<open>Op dispatcher\<close>

lemma length_swap: "length (swap i j xs) = length xs"
  by (simp add: swap_def)

lemma mset_swap_list: "i < length xs \<Longrightarrow> j < length xs \<Longrightarrow> mset (swap i j xs) = mset xs"
  by (simp add: swap_def mset_swap)

lemma shuffle_from_perm:
  "k < length xs \<or> k = 0 \<Longrightarrow>
     mset (shuffle_from rnd k xs) = mset xs \<and> length (shuffle_from rnd k xs) = length xs"
proof (induction k arbitrary: xs)
  case 0
  show ?case by simp
next
  case (Suc k)
  let ?j = "rnd (Suc (Suc k)) mod Suc (Suc k)"
  from Suc.prems have i: "Suc k < length xs"
    by simp
  have "?j < Suc (Suc k)"
    by (rule mod_less_divisor) simp
  with i have j: "?j < length xs"
    by linarith
  have "k < length (swap (Suc k) ?j xs) \<or> k = 0"
    using i by (simp add: length_swap)
  from Suc.IH [OF this] i j show ?case
    by (simp add: mset_swap_list length_swap)
qed

lemma Shuffle_perm:
  "mset (Shuffle rnd (length xs) xs) = mset xs \<and> length (Shuffle rnd (length xs) xs) = length xs"
  unfolding Shuffle_def by (rule shuffle_from_perm) (cases xs, simp_all)

lemma mset_take_le: "mset (take n xs) \<subseteq># mset xs"
proof -
  have "mset (take n xs) + mset (drop n xs) = mset xs"
    by (simp flip: mset_append)
  then show ?thesis
    by (metis mset_subset_eq_add_left)
qed

lemma distinct_of_mset_eq: "mset xs = mset ys \<Longrightarrow> distinct ys \<Longrightarrow> distinct xs"
  by (metis mset_eq_imp_distinct_iff)

text \<open>
  Claim C6, as amended. Under the random strategy with a threshold \<open>N\<close> between 0 and the
  number \<open>L\<close> of configured moderators, the dispatcher returns \<open>N\<close> of them: a list of length
  \<open>N\<close> whose elements, counted with multiplicity, are among the configured ones, so that it
  has no duplicates when the configured list has none. A threshold that is negative or above
  the capacity of the configured slice makes the slice expression panic; nothing bounds the
  threshold by the length.
\<close>

theorem random_dispatch_within_length:
  "dispatchingStrategy en \<noteq> ''Broadcast'' \<longrightarrow>
     (0 \<le> randomDispatchingThreshold en \<and> randomDispatchingThreshold en \<le> int (length (ops en)) \<longrightarrow>
        (\<exists>xs. getTargetOps en hist = Inr xs \<and> length xs = nat (randomDispatchingThreshold en)
              \<and> mset xs \<subseteq># mset (ops en) \<and> (distinct (ops en) \<longrightarrow> distinct xs)))
     \<and> (randomDispatchingThreshold en < 0
         \<or> int (length (ops en) + length (ops_spare en)) < randomDispatchingThreshold en \<longrightarrow>
        getTargetOps en hist = Inl SliceBounds)"
proof (intro impI conjI)
  assume random: "dispatchingStrategy en \<noteq> ''Broadcast''"
  let ?n = "randomDispatchingThreshold en"
  let ?s = "Shuffle (rand_Intn en hist) (length (ops en)) (ops en)"
  have perm: "mset ?s = mset (ops en)" and len: "length ?s = length (ops en)"
    using Shuffle_perm [of "rand_Intn en hist" "ops en"] by simp_all
  {
    assume n: "0 \<le> ?n \<and> ?n \<le> int (length (ops en))"
    let ?xs = "take (nat ?n) ?s"
    have run: "getTargetOps en hist = Inr ?xs"
      using random n len by (auto simp: getTargetOps_def slice_to_def Let_def)
    have "nat ?n \<le> length (ops en)"
      using n by linarith
    then have l: "length ?xs = nat ?n"
      using len by simp
    have sub: "mset ?xs \<subseteq># mset (ops en)"
      using mset_take_le [of "nat ?n" ?s] perm by simp
    have "distinct (ops en) \<longrightarrow> distinct ?xs"
      using perm by (auto dest: distinct_of_mset_eq)
    with run l sub
    show "\<exists>xs. getTargetOps en hist = Inr xs \<and> length xs = nat ?n
              \<and> mset xs \<subseteq># mset (ops en) \<and> (distinct (ops en) \<longrightarrow> distinct xs)"
      by blast
  }
  {
    assume "?n < 0 \<or> int (length (ops en) + length (ops_spare en)) < ?n"
    with random len show "getTargetOps en hist = Inl SliceBounds"
      by (auto simp: getTargetOps_def slice_to_def Let_def)
  }
qed

lemma shuffle_three:
  "Shuffle (\<lambda>n. 0) (Suc (Suc (Suc 0))) [''m1@x'', ''m2@x'', ''m3@x'']
     = [''m2@x'', ''m3@x'', ''m1@x'']"
  by (simp add: Shuffle_def swap_def)

theorem random_dispatch_witness:
  "getTargetOps env_random [] = Inr [''m2@x'', ''m3@x'']
   \<and> length [''m2@x'', ''m3@x''] = nat (randomDispatchingThreshold env_random)
   \<and> mset [''m2@x'', ''m3@x''] \<subseteq># mset (ops env_random)
   \<and> distinct [''m2@x'', ''m3@x'']"
proof -
  have cfg: "dispatchingStrategy env_random \<noteq> ''Broadcast''"
    "0 \<le> randomDispatchingThreshold env_random
     \<and> randomDispatchingThreshold env_random \<le> int (length (ops env_random))"
    "distinct (ops env_random)"
    by (simp_all add: env_random_def env0_def)
  have run: "getTargetOps env_random [] = Inr [''m2@x'', ''m3@x'']"
    by (simp add: getTargetOps_def env_random_def env0_def slice_to_def shuffle_three Let_def)
  from random_dispatch_within_length [of env_random "[]"] cfg run show ?thesis
    by simp
qed

theorem random_dispatch_counterexample:
  "dispatchingStrategy env_random_over \<noteq> ''Broadcast''
   \<and> randomDispatchingThreshold env_random_over = 4
   \<and> length (ops env_random_over) = 3
   \<and> getTargetOps env_random_over [] = Inl SliceBounds
   \<and> getTargetOps env_random_spare [] = Inr [''m2@x'', ''m3@x'', ''m1@x'', []]"
  by (simp add: getTargetOps_def env_random_spare_def env_random_over_def env0_def slice_to_def
        shuffle_three Let_def)

section \<open>Action e-mails to the moderators\<close>

lemma mailed_append: "mailed t (xs @ ys) = mailed t xs @ mailed t ys"
  by (induction xs rule: mailed.induct) auto

lemma mailed_none: "KMail \<notin> kind_of ` set evs \<Longrightarrow> mailed t evs = []"
  by (induction evs rule: mailed.induct) auto

lemma sent_to_mailed: "sent_to t evs = map fst (filter snd (mailed t evs))"
  by (induction evs rule: sent_to.induct) auto

lemma store_logEvent: "store (logEvent l msg w) = store w"
  by (simp add: logEvent_def emit_def)

lemma new_events_cons:
  assumes "trace w1 = trace w @ es" and "appended K w1 w'"
  shows "new_events w w' = es @ new_events w1 w'"
  using assms by (auto simp: appended_def new_events_def)

text \<open>One turn of the loop, when the address of the moderator can be encrypted.\<close>

lemma emailToOps_loop_turn:
  assumes "EncodeAndEncrypt en op (passphrase en) = Some t"
  obtains ok w1 where
    "trace w1 = trace w @ [EMail action_template
        (FRONTEND_DEPLOYED_URL en @ ''action/'' @ tok @ ''?adm='' @ t) subject op ok,
        ELog (if ok then LInfo else LError)
          (if ok then ''Action email sent to op'' else ''Failed to send email to op'')]"
    "store w1 = store w"
    "emailToOps_loop en subject tok (op # rest) asg cnt w =
       emailToOps_loop en subject tok rest (if ok then asg @ [op] else asg)
         (if ok then cnt + 1 else cnt) w1"
proof (cases "mail_err en (trace w) ''./mailer/templates/ops.html''
                (FRONTEND_DEPLOYED_URL en @ ''action/'' @ tok @ ''?adm='' @ t) subject op")
  case True
  with assms show ?thesis
    by (intro that [of "logEvent LError ''Failed to send email to op''
            (snd (Send en w ''./mailer/templates/ops.html''
               (FRONTEND_DEPLOYED_URL en @ ''action/'' @ tok @ ''?adm='' @ t) subject op))" False])
       (simp_all add: Send_def logEvent_def emit_def action_template_def Let_def)
next
  case False
  with assms show ?thesis
    by (intro that [of "logEvent LInfo ''Action email sent to op''
            (snd (Send en w ''./mailer/templates/ops.html''
               (FRONTEND_DEPLOYED_URL en @ ''action/'' @ tok @ ''?adm='' @ t) subject op))" True])
       (simp_all add: Send_def logEvent_def emit_def action_template_def Let_def)
qed

lemma emailToOps_loop_done:
  assumes "\<forall>op \<in> set targets. EncodeAndEncrypt en op (passphrase en) \<noteq> None"
  shows "\<exists>asg' cnt' w'.
           emailToOps_loop en subject tok targets asg cnt w = Inr (asg', cnt', w')
           \<and> appended {KLog, KMail} w w' \<and> store w' = store w
           \<and> map fst (mailed action_template (new_events w w')) = targets
           \<and> asg' = asg @ sent_to action_template (new_events w w')
           \<and> cnt' = cnt + int (length (sent_to action_template (new_events w w')))"
  using assms
proof (induction targets arbitrary: asg cnt w)
  case Nil
  show ?case
    by (simp add: appended_refl new_events_def)
next
  case (Cons op rest)
  from Cons.prems obtain t where t: "EncodeAndEncrypt en op (passphrase en) = Some t"
    by auto
  from emailToOps_loop_turn [OF t, of w tok subject rest asg cnt]
  obtain ok w1 where
    tr: "trace w1 = trace w @ [EMail action_template
        (FRONTEND_DEPLOYED_URL en @ ''action/'' @ tok @ ''?adm='' @ t) subject op ok,
        ELog (if ok then LInfo else LError)
          (if ok then ''Action email sent to op'' else ''Failed to send email to op'')]"
    and st: "store w1 = store w"
    and eq: "emailToOps_loop en subject tok (op # rest) asg cnt w =
       emailToOps_loop en subject tok rest (if ok then asg @ [op] else asg)
         (if ok then cnt + 1 else cnt) w1"
    by blast
  from Cons.prems have "\<forall>op \<in> set rest. EncodeAndEncrypt en op (passphrase en) \<noteq> None"
    by simp
  from Cons.IH [OF this, of "if ok then asg @ [op] else asg" "if ok then cnt + 1 else cnt" w1]
  obtain asg' cnt' w' where
    run: "emailToOps_loop en subject tok rest (if ok then asg @ [op] else asg)
            (if ok then cnt + 1 else cnt) w1 = Inr (asg', cnt', w')"
    and app: "appended {KLog, KMail} w1 w'" and st': "store w' = store w1"
    and ml: "map fst (mailed action_template (new_events w1 w')) = rest"
    and a: "asg' = (if ok then asg @ [op] else asg) @ sent_to action_template (new_events w1 w')"
    and c: "cnt' = (if ok then cnt + 1 else cnt)
              + int (length (sent_to action_template (new_events w1 w')))"
    by blast
  have step: "appended {KLog, KMail} w w1"
    using tr by (auto simp: appended_def)
  have ne: "new_events w w' = [EMail action_template
        (FRONTEND_DEPLOYED_URL en @ ''action/'' @ tok @ ''?adm='' @ t) subject op ok,
        ELog (if ok then LInfo else LError)
          (if ok then ''Action email sent to op'' else ''Failed to send email to op'')]
        @ new_events w1 w'"
    using tr app by (rule new_events_cons)
  have "appended {KLog, KMail} w w'"
    using step app by (rule appended_trans)
  moreover have "store w' = store w"
    using st st' by simp
  moreover have "map fst (mailed action_template (new_events w w')) = op # rest"
    using ml by (simp add: ne)
  moreover have "asg' = asg @ sent_to action_template (new_events w w')"
    using a by (simp add: ne)
  moreover have "cnt' = cnt + int (length (sent_to action_template (new_events w w')))"
    using c by (simp add: ne)
  ultimately show ?case
    using run eq by simp
qed

lemma emailToOps_loop_fails:
  assumes "\<forall>p \<in> set pre. EncodeAndEncrypt en p (passphrase en) \<noteq> None"
    and "EncodeAndEncrypt en op (passphrase en) = None"
  shows "\<exists>w'. emailToOps_loop en subject tok (pre @ op # post) asg cnt w = Inl w'
           \<and> appended {KLog, KMail} w w' \<and> store w' = store w
           \<and> map fst (mailed action_template (new_events w w')) = pre"
  using assms(1)
proof (induction pre arbitrary: asg cnt w)
  case Nil
  have "appended {KLog, KMail} w (logEvent LError ''Failed to encode opEmail Token'' w)"
    by (simp add: appended_logEvent)
  moreover have "mailed action_template
      (new_events w (logEvent LError ''Failed to encode opEmail Token'' w)) = []"
    by (simp add: new_events_def logEvent_def emit_def)
  ultimately show ?case
    using assms(2) by (simp add: store_logEvent)
next
  case (Cons p pre)
  from Cons.prems obtain t where t: "EncodeAndEncrypt en p (passphrase en) = Some t"
    by auto
  from emailToOps_loop_turn [OF t, of w tok subject "pre @ op # post" asg cnt]
  obtain ok w1 where
    tr: "trace w1 = trace w @ [EMail action_template
        (FRONTEND_DEPLOYED_URL en @ ''action/'' @ tok @ ''?adm='' @ t) subject p ok,
        ELog (if ok then LInfo else LError)
          (if ok then ''Action email sent to op'' else ''Failed to send email to op'')]"
    and st: "store w1 = store w"
    and eq: "emailToOps_loop en subject tok (p # pre @ op # post) asg cnt w =
       emailToOps_loop en subject tok (pre @ op # post) (if ok then asg @ [p] else asg)
         (if ok then cnt + 1 else cnt) w1"
    by blast
  from Cons.prems have "\<forall>p \<in> set pre. EncodeAndEncrypt en p (passphrase en) \<noteq> None"
    by simp
  from Cons.IH [OF this, of "if ok then asg @ [p] else asg" "if ok then cnt + 1 else cnt" w1]
  obtain w' where
    run: "emailToOps_loop en subject tok (pre @ op # post) (if ok then asg @ [p] else asg)
            (if ok then cnt + 1 else cnt) w1 = Inl w'"
    and app: "appended {KLog, KMail} w1 w'" and st': "store w' = store w1"
    and ml: "map fst (mailed action_template (new_events w1 w')) = pre"
    by blast
  have step: "appended {KLog, KMail} w w1"
    using tr by (auto simp: appended_def)
  have ne: "new_events w w' = [EMail action_template
        (FRONTEND_DEPLOYED_URL en @ ''action/'' @ tok @ ''?adm='' @ t) subject p ok,
        ELog (if ok then LInfo else LError)
          (if ok then ''Action email sent to op'' else ''Failed to send email to op'')]
        @ new_events w1 w'"
    using tr app by (rule new_events_cons)
  have "appended {KLog, KMail} w w'"
    using step app by (rule appended_trans)
  moreover have "store w' = store w"
    using st st' by simp
  moreover have "map fst (mailed action_template (new_events w w')) = p # pre"
    using ml by (simp add: ne)
  ultimately show ?case
    using run eq by simp
qed

lemma first_failing:
  assumes "\<exists>op \<in> set targets. EncodeAndEncrypt en op (passphrase en) = None"
  obtains pre op post where "targets = pre @ op # post"
    "\<forall>p \<in> set pre. EncodeAndEncrypt en p (passphrase en) \<noteq> None"
    "EncodeAndEncrypt en op (passphrase en) = None"
proof -
  from split_list_first_prop [OF assms] obtain pre op post where
    "targets = pre @ op # post"
    "\<forall>p \<in> set pre. \<not> EncodeAndEncrypt en p (passphrase en) = None"
    "EncodeAndEncrypt en op (passphrase en) = None"
    by blast
  then show thesis
    by (rule that)
qed

lemma filter_db_kinds:
  "KDb \<notin> kind_of ` set evs \<Longrightarrow> filter is_db_set evs = []"
proof (induction evs)
  case Nil
  show ?case by simp
next
  case (Cons e evs)
  then show ?case by (cases e) simp_all
qed

lemma emailToOps_id_fails:
  "EncodeAndEncrypt en (ID r) (passphrase en) = None \<Longrightarrow>
     emailToOps en w r q = Inr ((0, True), logEvent LError ''Failed to encode requestID Token'' w)"
  by (simp add: emailToOps_def)

lemma emailToOps_op_fails:
  assumes "EncodeAndEncrypt en (ID r) (passphrase en) \<noteq> None"
    and "getTargetOps en (trace w) = Inr (pre @ op # post)"
    and "\<forall>p \<in> set pre. EncodeAndEncrypt en p (passphrase en) \<noteq> None"
    and "EncodeAndEncrypt en op (passphrase en) = None"
  shows "\<exists>w'. emailToOps en w r q = Inr ((0, True), w')
           \<and> appended {KLog, KMail} w w' \<and> store w' = store w
           \<and> map fst (mailed action_template (new_events w w')) = pre"
proof -
  from assms(1) obtain tok where tok: "EncodeAndEncrypt en (ID r) (passphrase en) = Some tok"
    by auto
  from emailToOps_loop_fails [OF assms(3,4),
      of "''[Action Required] Whitelist request from '' @ Username r" tok post "[]" 0 w]
  obtain w' where
    "emailToOps_loop en (''[Action Required] Whitelist request from '' @ Username r) tok
       (pre @ op # post) [] 0 w = Inl w'"
    "appended {KLog, KMail} w w'" "store w' = store w"
    "map fst (mailed action_template (new_events w w')) = pre"
    by blast
  with tok assms(2) show ?thesis
    by (simp add: emailToOps_def)
qed


lemma mailed_kinds:
  "appended K w w' \<Longrightarrow> KMail \<notin> K \<Longrightarrow> mailed t (new_events w w') = []"
  using appended_new_events [of K w w'] by (intro mailed_none) auto

lemma filter_db_set_kinds:
  "appended K w w' \<Longrightarrow> KDb \<notin> K \<Longrightarrow> filter is_db_set (new_events w w') = []"
  using appended_new_events [of K w w'] by (intro filter_db_kinds) auto

text \<open>The write of the assignees, with its log record when it fails.\<close>

lemma assignees_write:
  obtains ok w' where
    "(let (e, w') = UpdateRequest en w1 i (SetAssignees xs)
      in if e then logEvent LError
                     ''Unable to update request db object with assignees metadata'' w'
         else w') = w'"
    "trace w' = trace w1 @ EDbSet i (SetAssignees xs) ok
        # (if ok then []
           else [ELog LError ''Unable to update request db object with assignees metadata''])"
    "ok \<Longrightarrow> store w' i = map_option (\<lambda>doc. doc\<lparr>doc_assignees := Some xs\<rparr>) (store w1 i)"
    "\<not> ok \<Longrightarrow> store w' = store w1"
proof (cases "db_err en (trace w1) i (SetAssignees xs)")
  case True
  then show ?thesis
    by (intro that [of "logEvent LError
            ''Unable to update request db object with assignees metadata''
            (snd (UpdateRequest en w1 i (SetAssignees xs)))" False])
       (simp_all add: UpdateRequest_def logEvent_def emit_def Let_def)
next
  case False
  then show ?thesis
    by (intro that [of "snd (UpdateRequest en w1 i (SetAssignees xs))" True])
       (auto simp: UpdateRequest_def logEvent_def emit_def Let_def apply_change_def
          split: option.splits)
qed

lemma emailToOps_complete:
  assumes tok: "EncodeAndEncrypt en (ID r) (passphrase en) \<noteq> None"
    and ts: "getTargetOps en (trace w) = Inr targets"
    and enc: "\<forall>op \<in> set targets. EncodeAndEncrypt en op (passphrase en) \<noteq> None"
  shows "\<exists>n err w'.
           emailToOps en w r q = Inr ((n, err), w')
           \<and> appended {KLog, KMail, KDb} w w'
           \<and> map fst (mailed action_template (new_events w w')) = targets
           \<and> n = int (length (sent_to action_template (new_events w w')))
           \<and> (err \<longleftrightarrow> n < q)
           \<and> (sent_to action_template (new_events w w') = [] \<longrightarrow>
                filter is_db_set (new_events w w') = [] \<and> store w' = store w)
           \<and> (sent_to action_template (new_events w w') \<noteq> [] \<longrightarrow>
                (\<exists>ok. filter is_db_set (new_events w w')
                         = [EDbSet (ID r) (SetAssignees (sent_to action_template (new_events w w'))) ok]
                      \<and> (ok \<longrightarrow> store w' (ID r)
                             = map_option
                                 (\<lambda>doc. doc\<lparr>doc_assignees :=
                                    Some (sent_to action_template (new_events w w'))\<rparr>)
                                 (store w (ID r)))
                      \<and> (\<not> ok \<longrightarrow> store w' = store w)))"
proof -
  let ?subject = "''[Action Required] Whitelist request from '' @ Username r"
  from tok obtain t where t: "EncodeAndEncrypt en (ID r) (passphrase en) = Some t"
    by auto
  from emailToOps_loop_done [OF enc, of ?subject t "[]" 0 w]
  obtain asg cnt w1 where
    loop: "emailToOps_loop en ?subject t targets [] 0 w = Inr (asg, cnt, w1)"
    and app: "appended {KLog, KMail} w w1" and st: "store w1 = store w"
    and ml: "map fst (mailed action_template (new_events w w1)) = targets"
    and asg: "asg = sent_to action_template (new_events w w1)"
    and cnt: "cnt = int (length (sent_to action_template (new_events w w1)))"
    by auto
  show ?thesis
  proof (cases "asg = []")
    case True
    have run: "emailToOps en w r q = Inr ((cnt, cnt < q), w1)"
      using t ts loop True by (auto simp: emailToOps_def)
    have "appended {KLog, KMail, KDb} w w1"
      using app by (rule appended_mono) auto
    moreover have "filter is_db_set (new_events w w1) = []"
      using app by (rule filter_db_set_kinds) simp
    ultimately show ?thesis
      using run ml cnt st True asg by simp
  next
    case False
    from assignees_write [of en w1 "ID r" asg] obtain ok w' where
      w': "(let (e, w') = UpdateRequest en w1 (ID r) (SetAssignees asg)
            in if e then logEvent LError
                           ''Unable to update request db object with assignees metadata'' w'
               else w') = w'"
      and tr: "trace w' = trace w1 @ EDbSet (ID r) (SetAssignees asg) ok
        # (if ok then []
           else [ELog LError ''Unable to update request db object with assignees metadata''])"
      and sok: "ok \<Longrightarrow> store w' (ID r)
                  = map_option (\<lambda>doc. doc\<lparr>doc_assignees := Some asg\<rparr>) (store w1 (ID r))"
      and sno: "\<not> ok \<Longrightarrow> store w' = store w1"
      by blast
    have run: "emailToOps en w r q = Inr ((cnt, cnt < q), w')"
      using t ts loop False w' by (auto simp: emailToOps_def)
    have app': "appended {KLog, KDb} w1 w'"
      using tr by (auto simp: appended_def)
    have ne: "new_events w w' = new_events w w1 @ new_events w1 w'"
      using app app' by (rule new_events_split)
    have ne1: "new_events w1 w' = EDbSet (ID r) (SetAssignees asg) ok
        # (if ok then []
           else [ELog LError ''Unable to update request db object with assignees metadata''])"
      using tr by (simp add: new_events_def)
    have sent: "sent_to action_template (new_events w w') = asg"
      using asg by (simp add: ne sent_to_append ne1)
    have mailed: "map fst (mailed action_template (new_events w w')) = targets"
      using ml by (simp add: ne mailed_append ne1)
    have "filter is_db_set (new_events w w1) = []"
      using app by (rule filter_db_set_kinds) simp
    then have db: "filter is_db_set (new_events w w') = [EDbSet (ID r) (SetAssignees asg) ok]"
      by (simp add: ne ne1)
    have "appended {KLog, KMail, KDb} w w1" "appended {KLog, KMail, KDb} w1 w'"
      using app app' by (auto intro: appended_mono)
    then have all: "appended {KLog, KMail, KDb} w w'"
      by (rule appended_trans)
    have "\<exists>ok. filter is_db_set (new_events w w') = [EDbSet (ID r) (SetAssignees asg) ok]
             \<and> (ok \<longrightarrow> store w' (ID r)
                    = map_option (\<lambda>doc. doc\<lparr>doc_assignees := Some asg\<rparr>) (store w (ID r)))
             \<and> (\<not> ok \<longrightarrow> store w' = store w)"
      using db sok sno st by (intro exI [of _ ok]) simp
    with run all mailed sent cnt asg False show ?thesis
      by simp
  qed
qed

text \<open>
  Claim C9, as amended. When every link token can be encrypted, \<^verbatim>\<open>emailToOps\<close> calls the mailer
  once for each selected moderator, in order. When at least one of these sends succeeded, it
  writes the list of the moderators whose send succeeded, in that order, as the assignees of
  the application: one call of the document store, and when that call succeeds the persisted
  field is this list. When no send succeeded it makes no call of the document store and the
  field keeps the value it had.
\<close>

theorem assignees_persisted_when_some_sent:
  "EncodeAndEncrypt en (ID r) (passphrase en) \<noteq> None \<longrightarrow>
   getTargetOps en (trace w) = Inr targets \<longrightarrow>
   (\<forall>op \<in> set targets. EncodeAndEncrypt en op (passphrase en) \<noteq> None) \<longrightarrow>
     (\<exists>n err w'.
        emailToOps en w r q = Inr ((n, err), w')
        \<and> (let evs = new_events w w'; sent = sent_to action_template evs
           in map fst (mailed action_template evs) = targets
              \<and> sent = map fst (filter snd (mailed action_template evs))
              \<and> (sent \<noteq> [] \<longrightarrow>
                   (\<exists>ok. filter is_db_set evs = [EDbSet (ID r) (SetAssignees sent) ok]
                         \<and> (ok \<longrightarrow> store w' (ID r)
                                = map_option (\<lambda>doc. doc\<lparr>doc_assignees := Some sent\<rparr>)
                                    (store w (ID r)))
                         \<and> (\<not> ok \<longrightarrow> store w' = store w)))
              \<and> (sent = [] \<longrightarrow> filter is_db_set evs = [] \<and> store w' = store w)))"
proof (intro impI)
  assume "EncodeAndEncrypt en (ID r) (passphrase en) \<noteq> None"
    and "getTargetOps en (trace w) = Inr targets"
    and "\<forall>op \<in> set targets. EncodeAndEncrypt en op (passphrase en) \<noteq> None"
  from emailToOps_complete [OF this, of q] obtain n err w' where
    "emailToOps en w r q = Inr ((n, err), w')"
    "map fst (mailed action_template (new_events w w')) = targets"
    "sent_to action_template (new_events w w') = [] \<longrightarrow>
       filter is_db_set (new_events w w') = [] \<and> store w' = store w"
    "sent_to action_template (new_events w w') \<noteq> [] \<longrightarrow>
       (\<exists>ok. filter is_db_set (new_events w w')
                = [EDbSet (ID r) (SetAssignees (sent_to action_template (new_events w w'))) ok]
             \<and> (ok \<longrightarrow> store w' (ID r)
                    = map_option
                        (\<lambda>doc. doc\<lparr>doc_assignees :=
                           Some (sent_to action_template (new_events w w'))\<rparr>)
                        (store w (ID r)))
             \<and> (\<not> ok \<longrightarrow> store w' = store w))"
    by blast
  then show "\<exists>n err w'.
        emailToOps en w r q = Inr ((n, err), w')
        \<and> (let evs = new_events w w'; sent = sent_to action_template evs
           in map fst (mailed action_template evs) = targets
              \<and> sent = map fst (filter snd (mailed action_template evs))
              \<and> (sent \<noteq> [] \<longrightarrow>
                   (\<exists>ok. filter is_db_set evs = [EDbSet (ID r) (SetAssignees sent) ok]
                         \<and> (ok \<longrightarrow> store w' (ID r)
                                = map_option (\<lambda>doc. doc\<lparr>doc_assignees := Some sent\<rparr>)
                                    (store w (ID r)))
                         \<and> (\<not> ok \<longrightarrow> store w' = store w)))
              \<and> (sent = [] \<longrightarrow> filter is_db_set evs = [] \<and> store w' = store w))"
    unfolding Let_def
    by (intro exI [of _ n] exI [of _ err] exI [of _ w']) (simp add: sent_to_mailed)
qed

lemmas dispatch_eval = emailToOps_def getTargetOps_def Send_def UpdateRequest_def
  logEvent_def emit_def apply_change_def action_template_def world_of_def new_events_def Let_def

lemma mail_m1_run:
  "emailToOps env_mail_m1 w_fresh pending_alice 2 =
     Inr ((1, True),
          \<lparr>trace =
             [EMail ''./mailer/templates/ops.html''
                ''http://front/action/tok-665000000000000000000001?adm=tok-m1@x''
                ''[Action Required] Whitelist request from alice'' ''m1@x'' True,
              ELog LInfo ''Action email sent to op'',
              EMail ''./mailer/templates/ops.html''
                ''http://front/action/tok-665000000000000000000001?adm=tok-m2@x''
                ''[Action Required] Whitelist request from alice'' ''m2@x'' False,
              ELog LError ''Failed to send email to op'',
              EMail ''./mailer/templates/ops.html''
                ''http://front/action/tok-665000000000000000000001?adm=tok-m3@x''
                ''[Action Required] Whitelist request from alice'' ''m3@x'' False,
              ELog LError ''Failed to send email to op'',
              EDbSet ''665000000000000000000001'' (SetAssignees [''m1@x'']) True],
           store = [''665000000000000000000001'' \<mapsto>
                      \<lparr>doc_assignees = Some [''m1@x''], doc_onserverStatus = None\<rparr>]\<rparr>)"
  by (simp add: dispatch_eval env_mail_m1_def env0_def w_fresh_def pending_alice_def alice_def)

theorem assignees_persisted_witness:
  "getTargetOps env_mail_m1 (trace w_fresh) = Inr [''m1@x'', ''m2@x'', ''m3@x'']
   \<and> map fst (mailed action_template
          (new_events w_fresh (world_of (emailToOps env_mail_m1 w_fresh pending_alice 2))))
        = [''m1@x'', ''m2@x'', ''m3@x'']
   \<and> sent_to action_template
        (new_events w_fresh (world_of (emailToOps env_mail_m1 w_fresh pending_alice 2))) = [''m1@x'']
   \<and> map_option doc_assignees
        (store (world_of (emailToOps env_mail_m1 w_fresh pending_alice 2)) (ID pending_alice))
      = Some (Some [''m1@x''])"
proof -
  have a: "EncodeAndEncrypt env_mail_m1 (ID pending_alice) (passphrase env_mail_m1) \<noteq> None"
    by (simp add: env_mail_m1_def env0_def)
  have b: "getTargetOps env_mail_m1 (trace w_fresh) = Inr [''m1@x'', ''m2@x'', ''m3@x'']"
    by (simp add: getTargetOps_def env_mail_m1_def env0_def)
  have c: "\<forall>op \<in> set [''m1@x'', ''m2@x'', ''m3@x''].
             EncodeAndEncrypt env_mail_m1 op (passphrase env_mail_m1) \<noteq> None"
    by (simp add: env_mail_m1_def env0_def)
  from assignees_persisted_when_some_sent
         [of env_mail_m1 pending_alice w_fresh "[''m1@x'', ''m2@x'', ''m3@x'']" 2] a b c
  have "map fst (mailed action_template
          (new_events w_fresh (world_of (emailToOps env_mail_m1 w_fresh pending_alice 2))))
        = [''m1@x'', ''m2@x'', ''m3@x'']"
    by (auto simp: world_of_def Let_def)
  moreover have "sent_to action_template
        (new_events w_fresh (world_of (emailToOps env_mail_m1 w_fresh pending_alice 2))) = [''m1@x'']"
    unfolding mail_m1_run
    by (simp add: world_of_def new_events_def w_fresh_def action_template_def)
  moreover have "map_option doc_assignees
        (store (world_of (emailToOps env_mail_m1 w_fresh pending_alice 2)) (ID pending_alice))
      = Some (Some [''m1@x''])"
    unfolding mail_m1_run
    by (simp add: world_of_def pending_alice_def alice_def)
  ultimately show ?thesis
    using b by simp
qed

theorem assignees_not_cleared_counterexample:
  "map_option doc_assignees (store w_assigned (ID pending_alice)) = Some (Some [''m1@x''])
   \<and> map fst (mailed action_template
        (new_events w_assigned (world_of (emailToOps env_mail_down w_assigned pending_alice 2))))
      = [''m1@x'', ''m2@x'', ''m3@x'']
   \<and> sent_to action_template
        (new_events w_assigned (world_of (emailToOps env_mail_down w_assigned pending_alice 2))) = []
   \<and> map_option doc_assignees
        (store (world_of (emailToOps env_mail_down w_assigned pending_alice 2)) (ID pending_alice))
      = Some (Some [''m1@x''])"
  by (simp add: dispatch_eval env_mail_down_def env0_def w_assigned_def pending_alice_def alice_def)

section \<open>New-request handler\<close>



lemma appended_after_confirmation:
  "{KLog, KMail} \<subseteq> K \<Longrightarrow> appended K w (after_confirmation en w r)"
  unfolding after_confirmation_def
  by (rule appended_trans [OF appended_logEvent appended_emailConfirmation]) auto



lemma processNewRequest_err:
  "emailToOps en (after_confirmation en w r) r (minRequiredReceiver en) = Inr ((n, True), w3) \<Longrightarrow>
     processNewRequest en w d r =
       Inr (logEvent LError ''Failed to dispatch action emails to required number of ops'' w3)"
  by (simp add: processNewRequest_def after_confirmation_def Let_def)


lemma last_new_events_logEvent:
  "appended K w w' \<Longrightarrow> last (new_events w (logEvent l msg w')) = ELog l msg"
  by (auto simp: appended_def new_events_def logEvent_def emit_def)



lemma no_ack_kinds: "appended K w w' \<Longrightarrow> KAck \<notin> K \<Longrightarrow> EAck \<notin> set (new_events w w')"
  using appended_new_events [of K w w'] by (intro no_ack) auto



text \<open>
  Claim C10. When the identifier of the request cannot be encrypted, \<^verbatim>\<open>emailToOps\<close> returns
  \<open>(0, error)\<close> having done nothing but log the failure. When the address of a selected
  moderator cannot be encrypted, it returns \<open>(0, error)\<close> at that moderator: the mailer has
  been called for the moderators before it and for no other, the document store has not been
  called and holds what it held. In both cases the new-request handler then logs the dispatch
  error and returns without acknowledging the delivery.
\<close>

theorem encryption_failure_returns_early:
  "(EncodeAndEncrypt en (ID r) (passphrase en) = None \<longrightarrow>
      emailToOps en w r q = Inr ((0, True), logEvent LError ''Failed to encode requestID Token'' w))
   \<and> (EncodeAndEncrypt en (ID r) (passphrase en) \<noteq> None \<longrightarrow>
       getTargetOps en (trace w) = Inr (pre @ op # post) \<longrightarrow>
       (\<forall>p \<in> set pre. EncodeAndEncrypt en p (passphrase en) \<noteq> None) \<longrightarrow>
       EncodeAndEncrypt en op (passphrase en) = None \<longrightarrow>
         (\<exists>w'. emailToOps en w r q = Inr ((0, True), w')
               \<and> map fst (mailed action_template (new_events w w')) = pre
               \<and> filter is_db_set (new_events w w') = [] \<and> store w' = store w))
   \<and> (EncodeAndEncrypt en (ID r) (passphrase en) = None
       \<or> (\<exists>ts. getTargetOps en (trace (after_confirmation en w r)) = Inr ts
               \<and> (\<exists>op \<in> set ts. EncodeAndEncrypt en op (passphrase en) = None)) \<longrightarrow>
         (\<exists>w3. processNewRequest en w d r = Inr w3 \<and> EAck \<notin> set (new_events w w3)
               \<and> last (new_events w w3)
                   = ELog LError ''Failed to dispatch action emails to required number of ops''))"
proof (intro conjI impI)
  assume "EncodeAndEncrypt en (ID r) (passphrase en) = None"
  then show "emailToOps en w r q
               = Inr ((0, True), logEvent LError ''Failed to encode requestID Token'' w)"
    by (rule emailToOps_id_fails)
next
  assume "EncodeAndEncrypt en (ID r) (passphrase en) \<noteq> None"
    and "getTargetOps en (trace w) = Inr (pre @ op # post)"
    and "\<forall>p \<in> set pre. EncodeAndEncrypt en p (passphrase en) \<noteq> None"
    and "EncodeAndEncrypt en op (passphrase en) = None"
  from emailToOps_op_fails [OF this, of q] obtain w' where
    run: "emailToOps en w r q = Inr ((0, True), w')"
    and app: "appended {KLog, KMail} w w'" and st: "store w' = store w"
    and ml: "map fst (mailed action_template (new_events w w')) = pre"
    by blast
  have "filter is_db_set (new_events w w') = []"
    using app by (rule filter_db_set_kinds) simp
  with run st ml
  show "\<exists>w'. emailToOps en w r q = Inr ((0, True), w')
               \<and> map fst (mailed action_template (new_events w w')) = pre
               \<and> filter is_db_set (new_events w w') = [] \<and> store w' = store w"
    by blast
next
  let ?w2 = "after_confirmation en w r"
  assume fail: "EncodeAndEncrypt en (ID r) (passphrase en) = None
       \<or> (\<exists>ts. getTargetOps en (trace ?w2) = Inr ts
               \<and> (\<exists>op \<in> set ts. EncodeAndEncrypt en op (passphrase en) = None))"
  have pre: "appended {KLog, KMail} w ?w2"
    by (rule appended_after_confirmation) simp
  have "\<exists>w3. emailToOps en ?w2 r (minRequiredReceiver en) = Inr ((0, True), w3)
              \<and> appended {KLog, KMail} ?w2 w3"
  proof (cases "EncodeAndEncrypt en (ID r) (passphrase en)")
    case None
    then show ?thesis
      by (simp add: emailToOps_id_fails appended_logEvent)
  next
    case (Some t)
    with fail obtain ts where ts: "getTargetOps en (trace ?w2) = Inr ts"
      and "\<exists>op \<in> set ts. EncodeAndEncrypt en op (passphrase en) = None"
      by auto
    from this(2) obtain pre op post where "ts = pre @ op # post"
      "\<forall>p \<in> set pre. EncodeAndEncrypt en p (passphrase en) \<noteq> None"
      "EncodeAndEncrypt en op (passphrase en) = None"
      by (rule first_failing)
    from emailToOps_op_fails [OF _ ts [unfolded this(1)] this(2,3), of r "minRequiredReceiver en"]
      Some
    show ?thesis
      by auto
  qed
  then obtain w3 where run: "emailToOps en ?w2 r (minRequiredReceiver en) = Inr ((0, True), w3)"
    and app: "appended {KLog, KMail} ?w2 w3"
    by blast
  let ?w4 = "logEvent LError ''Failed to dispatch action emails to required number of ops'' w3"
  have all: "appended {KLog, KMail} w w3"
    using pre app by (rule appended_trans)
  then have "appended {KLog, KMail} w ?w4"
    by (rule appended_trans) (simp add: appended_logEvent)
  then have "EAck \<notin> set (new_events w ?w4)"
    by (rule no_ack_kinds) simp
  moreover have "last (new_events w ?w4)
      = ELog LError ''Failed to dispatch action emails to required number of ops''"
    using all by (rule last_new_events_logEvent)
  moreover have "processNewRequest en w d r = Inr ?w4"
    using run by (rule processNewRequest_err)
  ultimately
  show "\<exists>w3. processNewRequest en w d r = Inr w3 \<and> EAck \<notin> set (new_events w w3)
               \<and> last (new_events w w3)
                   = ELog LError ''Failed to dispatch action emails to required number of ops''"
    by blast
qed


theorem encryption_failure_witness:
  "emailToOps env_encrypt_down w_fresh pending_alice 2
     = Inr ((0, True), logEvent LError ''Failed to encode requestID Token'' w_fresh)
   \<and> getTargetOps env_encrypt_m2 (trace w_fresh) = Inr ([''m1@x''] @ ''m2@x'' # [''m3@x''])
   \<and> fst (projr (emailToOps env_encrypt_m2 w_fresh pending_alice 1)) = (0, True)
   \<and> map fst (mailed action_template
         (new_events w_fresh (world_of (emailToOps env_encrypt_m2 w_fresh pending_alice 1))))
       = [''m1@x'']
   \<and> store (world_of (emailToOps env_encrypt_m2 w_fresh pending_alice 1)) = store w_fresh
   \<and> EAck \<notin> set (new_events w_fresh
                     (final (processNewRequest env_encrypt_m2 w_fresh first_delivery pending_alice)))"
proof -
  have down: "EncodeAndEncrypt env_encrypt_down (ID pending_alice) (passphrase env_encrypt_down) = None"
    by (simp add: env_encrypt_down_def)
  have id: "EncodeAndEncrypt env_encrypt_m2 (ID pending_alice) (passphrase env_encrypt_m2) \<noteq> None"
    by (simp add: env_encrypt_m2_def pending_alice_def alice_def)
  have ts: "getTargetOps env_encrypt_m2 (trace w_fresh) = Inr ([''m1@x''] @ ''m2@x'' # [''m3@x''])"
    by (simp add: getTargetOps_def env_encrypt_m2_def env0_def)
  have ts': "getTargetOps env_encrypt_m2
               (trace (after_confirmation env_encrypt_m2 w_fresh pending_alice))
             = Inr [''m1@x'', ''m2@x'', ''m3@x'']"
    by (simp add: getTargetOps_def env_encrypt_m2_def env0_def)
  have pre: "\<forall>p \<in> set [''m1@x'']. EncodeAndEncrypt env_encrypt_m2 p (passphrase env_encrypt_m2) \<noteq> None"
    by (simp add: env_encrypt_m2_def)
  have m2: "EncodeAndEncrypt env_encrypt_m2 ''m2@x'' (passphrase env_encrypt_m2) = None"
    by (simp add: env_encrypt_m2_def)
  from encryption_failure_returns_early [of env_encrypt_down pending_alice w_fresh 2] down
  have a: "emailToOps env_encrypt_down w_fresh pending_alice 2
     = Inr ((0, True), logEvent LError ''Failed to encode requestID Token'' w_fresh)"
    by simp
  from encryption_failure_returns_early
         [of env_encrypt_m2 pending_alice w_fresh 1 "[''m1@x'']" "''m2@x''" "[''m3@x'']" first_delivery]
    id ts pre m2 ts'
  have b: "\<exists>w'. emailToOps env_encrypt_m2 w_fresh pending_alice 1 = Inr ((0, True), w')
               \<and> map fst (mailed action_template (new_events w_fresh w')) = [''m1@x'']
               \<and> filter is_db_set (new_events w_fresh w') = [] \<and> store w' = store w_fresh"
    and c: "\<exists>w3. processNewRequest env_encrypt_m2 w_fresh first_delivery pending_alice = Inr w3
               \<and> EAck \<notin> set (new_events w_fresh w3)
               \<and> last (new_events w_fresh w3)
                   = ELog LError ''Failed to dispatch action emails to required number of ops''"
    by simp_all
  from b have b': "fst (projr (emailToOps env_encrypt_m2 w_fresh pending_alice 1)) = (0, True)"
    "map fst (mailed action_template
         (new_events w_fresh (world_of (emailToOps env_encrypt_m2 w_fresh pending_alice 1))))
       = [''m1@x'']"
    "store (world_of (emailToOps env_encrypt_m2 w_fresh pending_alice 1)) = store w_fresh"
    by (auto simp: world_of_def)
  from c have c': "EAck \<notin> set (new_events w_fresh
                     (final (processNewRequest env_encrypt_m2 w_fresh first_delivery pending_alice)))"
    by (auto simp: final_def)
  from a ts b' c' show ?thesis
    by simp
qed










section \<open>Main loop and codec\<close>

text \<open>
  Claim C7, as amended. For a delivery whose body decodes to a task whose status is none of
  Pending, Approved, Denied, Deactivated and Banned, the main loop invokes no handler and does
  nothing at all: the \<^verbatim>\<open>switch\<close> has no default case, so the delivery is not acknowledged.
\<close>

theorem unknown_status_not_acknowledged:
  "Body d = Some b \<longrightarrow> deserialize en b = Inr request \<longrightarrow>
   Status request \<notin> {StatusPending, StatusApproved, StatusDenied, StatusDeactivated, StatusBanned}
   \<longrightarrow> runLoop_delivery en w d = Inr w"
  by (simp add: runLoop_delivery_def)

lemma archived_body_decodes:
  "deserialize env0 archived_body
     = Inr \<lparr>ID = ''665000000000000000000001'', Username = ''alice'', Email = ''a@x'',
            Status = ''Archived''\<rparr>"
  by (simp add: codec_eval archived_body_def env0_def)

theorem unknown_status_witness:
  "Body archived_delivery = Some archived_body
   \<and> deserialize env0 archived_body
       = Inr \<lparr>ID = ''665000000000000000000001'', Username = ''alice'', Email = ''a@x'',
              Status = ''Archived''\<rparr>
   \<and> runLoop_delivery env0 w0 archived_delivery = Inr w0"
proof -
  have b: "Body archived_delivery = Some archived_body"
    by (simp add: archived_delivery_def)
  have s: "Status \<lparr>ID = ''665000000000000000000001'', Username = ''alice'', Email = ''a@x'',
              Status = ''Archived''\<rparr>
           \<notin> {StatusPending, StatusApproved, StatusDenied, StatusDeactivated, StatusBanned}"
    by (simp add: StatusPending_def StatusApproved_def StatusDenied_def StatusDeactivated_def
          StatusBanned_def)
  from unknown_status_not_acknowledged [of archived_delivery archived_body env0 _ w0]
    b archived_body_decodes s
  have "runLoop_delivery env0 w0 archived_delivery = Inr w0"
    by blast
  with b archived_body_decodes show ?thesis
    by simp
qed

theorem unknown_status_counterexample:
  "deserialize env0 archived_body
     = Inr \<lparr>ID = ''665000000000000000000001'', Username = ''alice'', Email = ''a@x'',
            Status = ''Archived''\<rparr>
   \<and> new_events w0 (final (runLoop_delivery env0 w0 archived_delivery)) = []
   \<and> EAck \<notin> set (new_events w0 (final (runLoop_delivery env0 w0 archived_delivery)))"
proof -
  have "runLoop_delivery env0 w0 archived_delivery = Inr w0"
    by (simp add: runLoop_delivery_def archived_delivery_def archived_body_decodes
          StatusPending_def StatusApproved_def StatusDenied_def StatusDeactivated_def
          StatusBanned_def)
  then show ?thesis
    by (simp add: archived_body_decodes final_def new_events_def)
qed















section \<open>Fuel of the scanner\<close>





















section \<open>Decoding an object\<close>












lemma broken_body_dropped:
  "deserialize env0 broken_body = Inl ReadError
   \<and> new_events w0 (final (runLoop_delivery env0 w0 \<lparr>Headers = [], Body = Some broken_body\<rparr>))
       = [ELog LError ''Unable to decode message into whitelistRequest'', EAck]"
proof -
  have "deserialize env0 broken_body = Inl ReadError"
    by (simp add: codec_eval broken_body_def env0_def)
  then show ?thesis
    by (simp add: runLoop_delivery_def final_def new_events_def Ack_def logEvent_def emit_def
          w0_def)
qed



end
